theory Spec2Isabelle
  imports Main
begin

section \<open>JavaScript values\<close>

text \<open>
  The transport inspects messages of the wire protocol with JavaScript's own operators
  (\<^verbatim>\<open>in\<close>, member access, truthiness, \<^verbatim>\<open>===\<close>). The values it looks at are the values
  \<^verbatim>\<open>JSON.parse\<close> produces, plus \<^verbatim>\<open>undefined\<close>, which a member access on a missing
  key returns. An object is the list of its own properties in enumeration order, keys
  unique. Numbers are the integers (the identifiers, error codes and unit counts of the
  protocol); strings are lists of code units below 256.
\<close>

datatype jsval =
    JUndefined
  | JNull
  | JBool bool
  | JNum int
  | JStr string
  | JArr "jsval list"
  | JObj "(string \<times> jsval) list"

type_synonym jsobject = "(string \<times> jsval) list"

text \<open>\<^verbatim>\<open>if (v)\<close>: \<^verbatim>\<open>undefined\<close>, \<^verbatim>\<open>null\<close>, \<^verbatim>\<open>false\<close>, \<^verbatim>\<open>0\<close> and \<^verbatim>\<open>""\<close> are falsy;
  every array and object is truthy.\<close>

fun truthy :: "jsval \<Rightarrow> bool" where
  "truthy JUndefined = False"
| "truthy JNull = False"
| "truthy (JBool b) = b"
| "truthy (JNum n) = (n \<noteq> 0)"
| "truthy (JStr s) = (s \<noteq> [])"
| "truthy (JArr xs) = True"
| "truthy (JObj kvs) = True"

text \<open>\<^verbatim>\<open>v == null\<close>: the two values on which a member access throws a TypeError.\<close>

fun nullish :: "jsval \<Rightarrow> bool" where
  "nullish JUndefined = True"
| "nullish JNull = True"
| "nullish v = False"

text \<open>\<^verbatim>\<open>k in o\<close> and \<^verbatim>\<open>o.k\<close> on an object.\<close>

definition has_key :: "string \<Rightarrow> jsobject \<Rightarrow> bool" where
  "has_key k kvs = (map_of kvs k \<noteq> None)"

definition get_field :: "jsobject \<Rightarrow> string \<Rightarrow> jsval" where
  "get_field kvs k = (case map_of kvs k of None \<Rightarrow> JUndefined | Some v \<Rightarrow> v)"

text \<open>\<^verbatim>\<open>v.k\<close> on a value that is not nullish, for the keys the transport reads
  (\<^verbatim>\<open>type\<close>, \<^verbatim>\<open>text\<close>, \<^verbatim>\<open>data\<close>, \<^verbatim>\<open>resource\<close>, \<^verbatim>\<open>blob\<close>, \<^verbatim>\<open>mimeType\<close>, \<^verbatim>\<open>content\<close>):
  none of them is a property of a primitive's or an array's prototype, so the access
  yields \<^verbatim>\<open>undefined\<close> there. The callers below test \<open>nullish\<close> first wherever the
  source can reach the access with \<^verbatim>\<open>undefined\<close> or \<^verbatim>\<open>null\<close>.\<close>

fun get_member :: "jsval \<Rightarrow> string \<Rightarrow> jsval" where
  "get_member (JObj kvs) k = get_field kvs k"
| "get_member v k = JUndefined"

text \<open>\<^verbatim>\<open>v?.k\<close>\<close>

definition opt_member :: "jsval \<Rightarrow> string \<Rightarrow> jsval" where
  "opt_member v k = (if nullish v then JUndefined else get_member v k)"

fun isArray :: "jsval \<Rightarrow> bool" where
  "isArray (JArr xs) = True"
| "isArray v = False"

fun is_string :: "jsval \<Rightarrow> bool" where
  "is_string (JStr s) = True"
| "is_string v = False"

fun elements :: "jsval \<Rightarrow> jsval list" where
  "elements (JArr xs) = xs"
| "elements v = []"

subsection \<open>Thrown values\<close>

text \<open>A \<^verbatim>\<open>throw\<close> or a rejected promise carries any value. The handler's catch block
  tests \<^verbatim>\<open>error instanceof Error\<close>, so the model keeps the difference.\<close>

datatype thrown =
    TypeError
  | ErrorInstance string
  | NonError jsval

fun instanceof_Error :: "thrown \<Rightarrow> bool" where
  "instanceof_Error TypeError = True"
| "instanceof_Error (ErrorInstance msg) = True"
| "instanceof_Error (NonError v) = False"

subsection \<open>Strings\<close>

definition toLowerCase_char :: "char \<Rightarrow> char" where
  "toLowerCase_char c =
     (let n = (of_char c :: nat) in
      if (65 \<le> n \<and> n \<le> 90) \<or> (192 \<le> n \<and> n \<le> 222 \<and> n \<noteq> 215)
      then char_of (n + 32) else c)"

definition toLowerCase :: "string \<Rightarrow> string" where
  "toLowerCase s = map toLowerCase_char s"

text \<open>White space and line terminators among the code units below 256: TAB, LF, VT, FF,
  CR, SP and NBSP.\<close>

definition is_js_space :: "char \<Rightarrow> bool" where
  "is_js_space c = ((of_char c :: nat) \<in> {9, 10, 11, 12, 13, 32, 160})"

definition trim :: "string \<Rightarrow> string" where
  "trim s = rev (dropWhile is_js_space (rev (dropWhile is_js_space s)))"

subsection \<open>\<^verbatim>\<open>JSON.stringify\<close>\<close>

text \<open>The decimal digits of a number that is not negative.\<close>

function show_digits :: "int \<Rightarrow> string" where
  "show_digits n =
     (if n < 10 then [char_of (48 + n)]
      else show_digits (n div 10) @ [char_of (48 + n mod 10)])"
  by pat_completeness auto
termination
  by (relation "measure nat") auto

definition show_int :: "int \<Rightarrow> string" where
  "show_int i = (if i < 0 then CHR ''-'' # show_digits (- i) else show_digits i)"

definition hex_digit :: "nat \<Rightarrow> char" where
  "hex_digit d = (if d < 10 then char_of (48 + d) else char_of (87 + d))"

definition quote_char :: "char \<Rightarrow> string" where
  "quote_char c =
     (let n = (of_char c :: nat) in
      if n = 34 then [CHR 0x5C, CHR 0x22]
      else if n = 92 then [CHR 0x5C, CHR 0x5C]
      else if n = 8 then [CHR 0x5C, CHR ''b'']
      else if n = 12 then [CHR 0x5C, CHR ''f'']
      else if n = 10 then [CHR 0x5C, CHR ''n'']
      else if n = 13 then [CHR 0x5C, CHR ''r'']
      else if n = 9 then [CHR 0x5C, CHR ''t'']
      else if n < 32 then [CHR 0x5C, CHR ''u'', CHR ''0'', CHR ''0'', hex_digit (n div 16), hex_digit (n mod 16)]
      else [c])"

definition quote :: "string \<Rightarrow> string" where
  "quote s = [CHR 0x22] @ concat (map quote_char s) @ [CHR 0x22]"

fun join_with :: "string \<Rightarrow> string list \<Rightarrow> string" where
  "join_with sep [] = []"
| "join_with sep [s] = s"
| "join_with sep (s # t # ss) = s @ sep @ join_with sep (t # ss)"

text \<open>The serialisation of one value: \<open>None\<close> is \<^verbatim>\<open>undefined\<close>, which an object drops
  together with its key and an array writes as \<^verbatim>\<open>null\<close>.\<close>

fun serialize :: "jsval \<Rightarrow> string option"
  and serialize_elements :: "jsval list \<Rightarrow> string list"
  and serialize_properties :: "(string \<times> jsval) list \<Rightarrow> string list" where
  "serialize JUndefined = None"
| "serialize JNull = Some ''null''"
| "serialize (JBool b) = Some (if b then ''true'' else ''false'')"
| "serialize (JNum n) = Some (show_int n)"
| "serialize (JStr s) = Some (quote s)"
| "serialize (JArr xs) = Some (''['' @ join_with '','' (serialize_elements xs) @ '']'')"
| "serialize (JObj kvs) = Some (''{'' @ join_with '','' (serialize_properties kvs) @ ''}'')"
| "serialize_elements [] = []"
| "serialize_elements (x # xs) =
     (case serialize x of None \<Rightarrow> ''null'' | Some s \<Rightarrow> s) # serialize_elements xs"
| "serialize_properties [] = []"
| "serialize_properties (kv # kvs) =
     (case serialize (snd kv) of
        None \<Rightarrow> serialize_properties kvs
      | Some s \<Rightarrow> (quote (fst kv) @ '':'' @ s) # serialize_properties kvs)"

definition JSON_stringify :: "jsval \<Rightarrow> jsval" where
  "JSON_stringify v = (case serialize v of None \<Rightarrow> JUndefined | Some s \<Rightarrow> JStr s)"


section \<open>Scan verdicts\<close>

text \<open>The declarations of the scanning client: the enumerations and the response of one
  scan call (\<^verbatim>\<open>ThreatCategory\<close>, \<^verbatim>\<open>ConfidenceLevel\<close>, \<^verbatim>\<open>ServiceTier\<close>,
  \<^verbatim>\<open>DetectedCategory\<close>, \<^verbatim>\<open>ScanResponse\<close>), in the version the transport is written
  against: a response has the six fields the transport's combined result has.\<close>

datatype ThreatCategory =
    BEHAVIORAL_OVERRIDE_LOW
  | ROLE_MANIPULATION
  | CONTEXT_INJECTION
  | INSTRUCTION_HIERARCHY_MANIPULATION
  | OUTPUT_MANIPULATION
  | DATA_EXFILTRATION
  | EXTERNAL_ACTIONS
  | SAFETY_BYPASS

datatype ConfidenceLevel = MEDIUM | HIGH

datatype ServiceTier = LOW | STANDARD | DEDICATED

record DetectedCategory =
  code :: ThreatCategory
  confidence :: ConfidenceLevel

record ScanResponse =
  is_safe :: bool
  categories :: "DetectedCategory list"
  request_id :: string
  api_key_id :: string
  request_units :: int
  service_tier :: ServiceTier

text \<open>The string value of each enumeration member, and a detected category as the object
  the serialiser sees.\<close>

fun ThreatCategory_value :: "ThreatCategory \<Rightarrow> string" where
  "ThreatCategory_value BEHAVIORAL_OVERRIDE_LOW = ''behavioral_override_low''"
| "ThreatCategory_value ROLE_MANIPULATION = ''role_manipulation''"
| "ThreatCategory_value CONTEXT_INJECTION = ''context_injection''"
| "ThreatCategory_value INSTRUCTION_HIERARCHY_MANIPULATION = ''instruction_hierarchy_manipulation''"
| "ThreatCategory_value OUTPUT_MANIPULATION = ''output_manipulation''"
| "ThreatCategory_value DATA_EXFILTRATION = ''data_exfiltration''"
| "ThreatCategory_value EXTERNAL_ACTIONS = ''external_actions''"
| "ThreatCategory_value SAFETY_BYPASS = ''safety_bypass''"

fun ConfidenceLevel_value :: "ConfidenceLevel \<Rightarrow> string" where
  "ConfidenceLevel_value MEDIUM = ''medium''"
| "ConfidenceLevel_value HIGH = ''high''"

definition category_object :: "DetectedCategory \<Rightarrow> jsval" where
  "category_object c =
     JObj [(''code'', JStr (ThreatCategory_value (code c))),
           (''confidence'', JStr (ConfidenceLevel_value (confidence c)))]"

section \<open>The image MIME type predicate\<close>

definition IMAGE_MIME_TYPES :: "string list" where
  "IMAGE_MIME_TYPES = [''image/png'', ''image/jpeg'', ''image/jpg'', ''image/gif'', ''image/webp'']"

text \<open>\<^verbatim>\<open>isImageMimeType\<close> is declared on an optional string and called on whatever the
  resource's \<^verbatim>\<open>mimeType\<close> is: a falsy value gives false, a string is normalised and looked
  up, and any other value has no \<^verbatim>\<open>toLowerCase\<close> method, which is a TypeError.\<close>

fun isImageMimeType :: "jsval \<Rightarrow> thrown + bool" where
  "isImageMimeType (JStr mimeType) =
     (if mimeType = [] then Inr False
      else Inr (trim (toLowerCase mimeType) \<in> set IMAGE_MIME_TYPES))"
| "isImageMimeType v = (if \<not> truthy v then Inr False else Inl TypeError)"

section \<open>The transport\<close>

subsection \<open>Synthesised error responses\<close>

definition CENTURE_SECURITY_VIOLATION_ERROR :: int where
  "CENTURE_SECURITY_VIOLATION_ERROR = - 32001"

definition createErrorResponse :: "jsval \<Rightarrow> jsval \<Rightarrow> ScanResponse \<Rightarrow> jsobject" where
  "createErrorResponse requestId method scanResult =
     (if method = JStr ''tools/call'' then
        [(''jsonrpc'', JStr ''2.0''),
         (''id'', requestId),
         (''result'', JObj
            [(''isError'', JBool True),
             (''content'', JArr
                [JObj
                   [(''type'', JStr ''text''),
                    (''text'', JSON_stringify (JObj
                       [(''code'', JNum CENTURE_SECURITY_VIOLATION_ERROR),
                        (''message'', JStr ''Message blocked by Centure security scan''),
                        (''data'', JObj
                           [(''categories'', JArr (map category_object (categories scanResult))),
                            (''reason'', JStr ''Unsafe content detected'')])]))]])])]
      else
        [(''jsonrpc'', JStr ''2.0''),
         (''id'', requestId),
         (''error'', JObj
            [(''code'', JNum CENTURE_SECURITY_VIOLATION_ERROR),
             (''message'', JStr ''Message blocked by Centure security scan''),
             (''data'', JObj
                [(''categories'', JArr (map category_object (categories scanResult))),
                 (''reason'', JStr ''Unsafe content detected'')])])])"

subsection \<open>Content extraction\<close>

text \<open>The loop over the content array. Reading \<^verbatim>\<open>item.type\<close> of an item that is
  \<^verbatim>\<open>null\<close> or \<^verbatim>\<open>undefined\<close> throws a TypeError, which ends the extraction.\<close>

fun extract_items ::
  "jsval list \<Rightarrow> jsval list \<Rightarrow> jsval list \<Rightarrow> thrown + (jsval list \<times> jsval list)" where
  "extract_items [] texts images = Inr (texts, images)"
| "extract_items (item # rest) texts images =
     (if nullish item then Inl TypeError
      else if get_member item ''type'' = JStr ''text'' \<and> truthy (get_member item ''text'')
      then extract_items rest (texts @ [get_member item ''text'']) images
      else if get_member item ''type'' = JStr ''image'' \<and> truthy (get_member item ''data'')
      then extract_items rest texts (images @ [get_member item ''data''])
      else if get_member item ''type'' = JStr ''resource''
              \<and> truthy (opt_member (get_member item ''resource'') ''blob'')
      then (case isImageMimeType (get_member (get_member item ''resource'') ''mimeType'') of
              Inl e \<Rightarrow> Inl e
            | Inr True \<Rightarrow>
                extract_items rest texts
                  (images @ [get_member (get_member item ''resource'') ''blob''])
            | Inr False \<Rightarrow> extract_items rest texts images)
      else extract_items rest texts images)"

definition extractContentForScanning :: "jsobject \<Rightarrow> thrown + (jsval list \<times> jsval list)" where
  "extractContentForScanning message =
     (if has_key ''result'' message \<and> truthy (get_field message ''result'') then
        (let result = get_field message ''result'' in
         if truthy (get_member result ''content'') \<and> isArray (get_member result ''content'')
         then extract_items (elements (get_member result ''content'')) [] []
         else if truthy (get_member result ''content'') \<and> is_string (get_member result ''content'')
         then Inr ([get_member result ''content''], [])
         else Inr ([JSON_stringify result], []))
      else if has_key ''params'' message \<and> truthy (get_field message ''params'')
      then Inr ([JSON_stringify (get_field message ''params'')], [])
      else Inr ([], []))"

subsection \<open>Configuration: the scanning client and the hooks\<close>

text \<open>The client and the hooks are supplied by the caller. Each call either returns a
  value or throws (an asynchronous one: its promise rejects), so each is a function into
  \<open>thrown + result\<close>; within the handling of one message the outcome of a call is
  taken to depend on its argument alone. A hook receives its context (the message, the
  transport's extra information and, after the scan, the combined result) as arguments;
  its result has the declared type. With the client comes the order in which its calls
  settle, \<open>settleOrder\<close>: for the texts and images of one message, the indices of the
  scan calls in the order in which their promises settle.\<close>

record OnAfterScanResult =
  passthrough :: bool

record OnUnsafeMessageResult = OnAfterScanResult +
  replace :: "jsobject option"

record CentureMCPClientTransportOptions =
  scanText :: "jsval \<Rightarrow> thrown + ScanResponse"
  scanImage :: "jsval \<Rightarrow> thrown + ScanResponse"
  settleOrder :: "jsval list \<Rightarrow> jsval list \<Rightarrow> nat list"
  shouldScanMessage :: "(jsobject \<Rightarrow> jsval \<Rightarrow> thrown + bool) option"
  onAfterScan :: "(jsobject \<Rightarrow> jsval \<Rightarrow> ScanResponse \<Rightarrow> thrown + OnAfterScanResult) option"
  onUnsafeMessage ::
    "(jsobject \<Rightarrow> jsval \<Rightarrow> ScanResponse \<Rightarrow> thrown + OnUnsafeMessageResult) option"

subsection \<open>What the handler does, as a trace\<close>

text \<open>The handler's effects are calls: of the hooks, of the extractor, of the client and
  of the two callbacks the application registers on the adapter, \<^verbatim>\<open>onmessage\<close> and
  \<^verbatim>\<open>onerror\<close>. The trace lists them in the order the handler makes them. \<open>OnMessage\<close>
  and \<open>OnError\<close> stand for \<^verbatim>\<open>this.onmessage?.(m, extra)\<close> and \<^verbatim>\<open>this.onerror?.(e)\<close>;
  the application's callbacks are sinks here: they return without throwing.\<close>

datatype event =
    ShouldScanMessageCalled jsobject jsval
  | ExtractCalled jsobject
  | ScanTextCalled jsval
  | ScanImageCalled jsval
  | OnAfterScanCalled jsobject jsval ScanResponse
  | OnUnsafeMessageCalled jsobject jsval ScanResponse
  | OnMessage jsobject jsval
  | OnError thrown

text \<open>A run of the handler: its trace, and \<open>None\<close> when it returns or \<open>Some e\<close> when it
  throws \<open>e\<close>.\<close>

type_synonym run = "event list \<times> thrown option"

subsection \<open>Scanning and combining\<close>

text \<open>One scan call per text, then one per image; every call is issued before any is
  awaited.\<close>

definition scanPromises ::
  "CentureMCPClientTransportOptions \<Rightarrow> jsval list \<Rightarrow> jsval list \<Rightarrow> (thrown + ScanResponse) list" where
  "scanPromises opts texts images = map (scanText opts) texts @ map (scanImage opts) images"

text \<open>\<^verbatim>\<open>Promise.all\<close> fulfils with the results, in the order of the promises, when no
  promise rejects; otherwise it rejects with the rejection of the promise that, among
  the rejected ones, settles first. The order in which the calls settle is not the
  handler's to choose: \<open>order\<close> lists the indices of the promises (from 0, in dispatch
  order) in the order in which they settle. A rejected promise that the list leaves out
  counts as settling after the listed ones, in dispatch order.\<close>

fun rejections :: "(thrown + 'a) list \<Rightarrow> thrown list" where
  "rejections [] = []"
| "rejections (Inl e # ps) = e # rejections ps"
| "rejections (Inr r # ps) = rejections ps"

fun fulfilments :: "(thrown + 'a) list \<Rightarrow> 'a list" where
  "fulfilments [] = []"
| "fulfilments (Inl e # ps) = fulfilments ps"
| "fulfilments (Inr r # ps) = r # fulfilments ps"

definition settled_rejections :: "nat list \<Rightarrow> (thrown + 'a) list \<Rightarrow> thrown list" where
  "settled_rejections order ps =
     rejections (map (\<lambda>i. ps ! i) (filter (\<lambda>i. i < length ps) order))"

definition Promise_all :: "nat list \<Rightarrow> (thrown + 'a) list \<Rightarrow> thrown + 'a list" where
  "Promise_all order ps =
     (case settled_rejections order ps @ rejections ps of
        [] \<Rightarrow> Inr (fulfilments ps)
      | e # _ \<Rightarrow> Inl e)"

text \<open>\<^verbatim>\<open>s || ""\<close> on a string. The members of \<^verbatim>\<open>ServiceTier\<close> are non-empty strings,
  so \<^verbatim>\<open>scanResults[0]?.service_tier || "standard"\<close> is the first result's tier, and
  \<^verbatim>\<open>"standard"\<close> only for an empty list.\<close>

definition or_empty :: "string \<Rightarrow> string" where
  "or_empty s = (if s \<noteq> [] then s else [])"

definition combinedScanResult :: "ScanResponse list \<Rightarrow> ScanResponse" where
  "combinedScanResult scanResults =
     (let isUnsafe = list_ex (\<lambda>result. \<not> is_safe result) scanResults;
          allCategories = concat (map categories scanResults)
      in \<lparr> is_safe = \<not> isUnsafe,
           categories = allCategories,
           request_id = (case scanResults of [] \<Rightarrow> [] | r # _ \<Rightarrow> or_empty (request_id r)),
           api_key_id = (case scanResults of [] \<Rightarrow> [] | r # _ \<Rightarrow> or_empty (api_key_id r)),
           request_units = foldl (\<lambda>sum result. sum + request_units result) 0 scanResults,
           service_tier = (case scanResults of [] \<Rightarrow> STANDARD | r # _ \<Rightarrow> service_tier r) \<rparr>)"

subsection \<open>The inbound message handler\<close>

text \<open>The message that replaces a blocked one: an error response when the message has an
  \<^verbatim>\<open>id\<close> that is not \<^verbatim>\<open>undefined\<close>, nothing otherwise.\<close>

definition blockedMessage :: "jsobject \<Rightarrow> ScanResponse \<Rightarrow> jsobject option" where
  "blockedMessage message scanResult =
     (if has_key ''id'' message \<and> get_field message ''id'' \<noteq> JUndefined
      then Some (createErrorResponse (get_field message ''id'')
                   (if has_key ''method'' message then get_field message ''method'' else JUndefined)
                   scanResult)
      else None)"

text \<open>\<^verbatim>\<open>if (messageToForward) this.onmessage?.(messageToForward, extra)\<close>\<close>

definition forwardIfAny :: "jsobject option \<Rightarrow> jsval \<Rightarrow> event list" where
  "forwardIfAny messageToForward extra =
     (case messageToForward of None \<Rightarrow> [] | Some m \<Rightarrow> [OnMessage m extra])"

text \<open>Step 4, the unsafe branch.\<close>

definition handleUnsafe ::
  "CentureMCPClientTransportOptions \<Rightarrow> jsobject \<Rightarrow> jsval \<Rightarrow> ScanResponse \<Rightarrow> run" where
  "handleUnsafe opts message extra scanResult =
     (case onUnsafeMessage opts of
        Some hook \<Rightarrow>
          (case hook message extra scanResult of
             Inl e \<Rightarrow> ([OnUnsafeMessageCalled message extra scanResult], Some e)
           | Inr unsafeResult \<Rightarrow>
               (let messageToForward =
                      (if passthrough unsafeResult
                       then Some (case replace unsafeResult of Some r \<Rightarrow> r | None \<Rightarrow> message)
                       else if replace unsafeResult \<noteq> None then replace unsafeResult
                       else blockedMessage message scanResult)
                in (OnUnsafeMessageCalled message extra scanResult
                      # forwardIfAny messageToForward extra, None)))
      | None \<Rightarrow> (forwardIfAny (blockedMessage message scanResult) extra, None))"

text \<open>Step 4.\<close>

definition handleVerdict ::
  "CentureMCPClientTransportOptions \<Rightarrow> jsobject \<Rightarrow> jsval \<Rightarrow> ScanResponse \<Rightarrow> run" where
  "handleVerdict opts message extra scanResult =
     (if \<not> is_safe scanResult then handleUnsafe opts message extra scanResult
      else ([OnMessage message extra], None))"

text \<open>Steps 3 and 4.\<close>

definition afterScan ::
  "CentureMCPClientTransportOptions \<Rightarrow> jsobject \<Rightarrow> jsval \<Rightarrow> ScanResponse \<Rightarrow> run" where
  "afterScan opts message extra scanResult =
     (case onAfterScan opts of
        Some hook \<Rightarrow>
          (case hook message extra scanResult of
             Inl e \<Rightarrow> ([OnAfterScanCalled message extra scanResult], Some e)
           | Inr afterScanResult \<Rightarrow>
               if passthrough afterScanResult
               then ([OnAfterScanCalled message extra scanResult, OnMessage message extra], None)
               else (let (evs, r) = handleVerdict opts message extra scanResult
                     in (OnAfterScanCalled message extra scanResult # evs, r)))
      | None \<Rightarrow> handleVerdict opts message extra scanResult)"

text \<open>Steps 2 to 4.\<close>

definition scanMessage :: "CentureMCPClientTransportOptions \<Rightarrow> jsobject \<Rightarrow> jsval \<Rightarrow> run" where
  "scanMessage opts message extra =
     (case extractContentForScanning message of
        Inl e \<Rightarrow> ([ExtractCalled message], Some e)
      | Inr (texts, images) \<Rightarrow>
          if texts = [] \<and> images = []
          then ([ExtractCalled message, OnMessage message extra], None)
          else
            (let calls = map ScanTextCalled texts @ map ScanImageCalled images in
             case Promise_all (settleOrder opts texts images) (scanPromises opts texts images) of
               Inl e \<Rightarrow> (ExtractCalled message # calls, Some e)
             | Inr scanResults \<Rightarrow>
                 (let (evs, r) = afterScan opts message extra (combinedScanResult scanResults)
                  in (ExtractCalled message # calls @ evs, r))))"

text \<open>The body of the \<^verbatim>\<open>try\<close> block.\<close>

definition tryBlock :: "CentureMCPClientTransportOptions \<Rightarrow> jsobject \<Rightarrow> jsval \<Rightarrow> run" where
  "tryBlock opts message extra =
     (case shouldScanMessage opts of
        Some hook \<Rightarrow>
          (case hook message extra of
             Inl e \<Rightarrow> ([ShouldScanMessageCalled message extra], Some e)
           | Inr shouldScan \<Rightarrow>
               if \<not> shouldScan
               then ([ShouldScanMessageCalled message extra, OnMessage message extra], None)
               else (let (evs, r) = scanMessage opts message extra
                     in (ShouldScanMessageCalled message extra # evs, r)))
      | None \<Rightarrow> scanMessage opts message extra)"

text \<open>The handler \<^verbatim>\<open>start\<close> installs as the wrapped transport's \<^verbatim>\<open>onmessage\<close>: the
  \<^verbatim>\<open>try\<close> block, and the \<^verbatim>\<open>catch\<close> block that reports an \<^verbatim>\<open>Error\<close> and rethrows.\<close>

definition onmessage :: "CentureMCPClientTransportOptions \<Rightarrow> jsobject \<Rightarrow> jsval \<Rightarrow> run" where
  "onmessage opts message extra =
     (case tryBlock opts message extra of
        (evs, None) \<Rightarrow> (evs, None)
      | (evs, Some error) \<Rightarrow>
          (evs @ (if instanceof_Error error then [OnError error] else []), Some error))"

text \<open>Readings of a trace: the messages handed to the application (each with the extra
  information passed along), the errors reported to it, and the kinds of call.\<close>

fun forwarded :: "event list \<Rightarrow> (jsobject \<times> jsval) list" where
  "forwarded [] = []"
| "forwarded (OnMessage m x # evs) = (m, x) # forwarded evs"
| "forwarded (ev # evs) = forwarded evs"

fun reported :: "event list \<Rightarrow> thrown list" where
  "reported [] = []"
| "reported (OnError e # evs) = e # reported evs"
| "reported (ev # evs) = reported evs"

fun is_scan_call :: "event \<Rightarrow> bool" where
  "is_scan_call (ScanTextCalled t) = True"
| "is_scan_call (ScanImageCalled i) = True"
| "is_scan_call ev = False"

fun is_extract_call :: "event \<Rightarrow> bool" where
  "is_extract_call (ExtractCalled m) = True"
| "is_extract_call ev = False"

fun is_unsafe_hook_call :: "event \<Rightarrow> bool" where
  "is_unsafe_hook_call (OnUnsafeMessageCalled m x r) = True"
| "is_unsafe_hook_call ev = False"

subsection \<open>Lifecycle: \<^verbatim>\<open>start\<close>, \<^verbatim>\<open>send\<close>, \<^verbatim>\<open>close\<close>\<close>

text \<open>The wrapped transport is the caller's object. The adapter uses its three operations,
  each of which returns or throws and may change the wrapped transport's own state \<open>'w\<close>,
  and reads its optional \<^verbatim>\<open>sessionId\<close> and \<^verbatim>\<open>setProtocolVersion\<close>.\<close>

record 'w Transport =
  transport_start :: "'w \<Rightarrow> thrown option \<times> 'w"
  transport_send :: "jsobject \<Rightarrow> jsval \<Rightarrow> 'w \<Rightarrow> thrown option \<times> 'w"
  transport_close :: "'w \<Rightarrow> thrown option \<times> 'w"
  transport_sessionId :: "'w \<Rightarrow> jsval"
  transport_setProtocolVersion :: "'w \<Rightarrow> bool"

text \<open>The adapter's own fields: the wrapped transport, whether \<^verbatim>\<open>start\<close> has assigned the
  wrapped transport's three callbacks, the mirrored session id, and whether
  \<^verbatim>\<open>setProtocolVersion\<close> is defined. There is no field for a lifecycle state.\<close>

record 'w CentureMCPClientTransport =
  wrappedTransport :: 'w
  callbacks_wired :: bool
  sessionId :: jsval
  setProtocolVersion :: bool

definition constructor :: "'w \<Rightarrow> 'w CentureMCPClientTransport" where
  "constructor w =
     \<lparr> wrappedTransport = w, callbacks_wired = False, sessionId = JUndefined,
       setProtocolVersion = False \<rparr>"

definition start ::
  "'w Transport \<Rightarrow> 'w CentureMCPClientTransport \<Rightarrow> thrown option \<times> 'w CentureMCPClientTransport" where
  "start T this =
     (let this1 = this\<lparr> callbacks_wired := True \<rparr>;
          this2 = (if transport_setProtocolVersion T (wrappedTransport this1)
                   then this1\<lparr> setProtocolVersion := True \<rparr> else this1);
          (r, w) = transport_start T (wrappedTransport this2);
          this3 = this2\<lparr> wrappedTransport := w \<rparr>
      in case r of
           Some e \<Rightarrow> (Some e, this3)
         | None \<Rightarrow>
             (None, if truthy (transport_sessionId T w)
                    then this3\<lparr> sessionId := transport_sessionId T w \<rparr> else this3))"

definition send ::
  "'w Transport \<Rightarrow> jsobject \<Rightarrow> jsval \<Rightarrow> 'w CentureMCPClientTransport
     \<Rightarrow> thrown option \<times> 'w CentureMCPClientTransport" where
  "send T message options this =
     (let (r, w) = transport_send T message options (wrappedTransport this)
      in (r, this\<lparr> wrappedTransport := w \<rparr>))"

definition close ::
  "'w Transport \<Rightarrow> 'w CentureMCPClientTransport \<Rightarrow> thrown option \<times> 'w CentureMCPClientTransport" where
  "close T this =
     (let (r, w) = transport_close T (wrappedTransport this)
      in (r, this\<lparr> wrappedTransport := w \<rparr>))"

text \<open>A caller's sequence of lifecycle calls, on the adapter and on the wrapped transport
  alone; each call's outcome is recorded, and the caller goes on after an error.\<close>

datatype operation = Start | Send jsobject jsval | Close

fun call ::
  "'w Transport \<Rightarrow> operation \<Rightarrow> 'w CentureMCPClientTransport
     \<Rightarrow> thrown option \<times> 'w CentureMCPClientTransport" where
  "call T Start this = start T this"
| "call T (Send message options) this = send T message options this"
| "call T Close this = close T this"

fun calls ::
  "'w Transport \<Rightarrow> operation list \<Rightarrow> 'w CentureMCPClientTransport
     \<Rightarrow> thrown option list \<times> 'w CentureMCPClientTransport" where
  "calls T [] this = ([], this)"
| "calls T (operation # rest) this =
     (let (r, this') = call T operation this;
          (rs, this'') = calls T rest this'
      in (r # rs, this''))"

fun transport_call :: "'w Transport \<Rightarrow> operation \<Rightarrow> 'w \<Rightarrow> thrown option \<times> 'w" where
  "transport_call T Start w = transport_start T w"
| "transport_call T (Send message options) w = transport_send T message options w"
| "transport_call T Close w = transport_close T w"

fun transport_calls :: "'w Transport \<Rightarrow> operation list \<Rightarrow> 'w \<Rightarrow> thrown option list \<times> 'w" where
  "transport_calls T [] w = ([], w)"
| "transport_calls T (operation # rest) w =
     (let (r, w') = transport_call T operation w;
          (rs, w'') = transport_calls T rest w'
      in (r # rs, w''))"

section \<open>The rules of the specification, as predicates\<close>

subsection \<open>Fragments of one content item\<close>

definition is_text_item :: "jsval \<Rightarrow> bool" where
  "is_text_item item =
     (get_member item ''type'' = JStr ''text'' \<and> truthy (get_member item ''text''))"

definition is_image_item :: "jsval \<Rightarrow> bool" where
  "is_image_item item =
     (get_member item ''type'' = JStr ''image'' \<and> truthy (get_member item ''data''))"

definition is_blob_item :: "jsval \<Rightarrow> bool" where
  "is_blob_item item =
     (get_member item ''type'' = JStr ''resource''
      \<and> truthy (get_member (get_member item ''resource'') ''blob''))"

definition blob_mimeType :: "jsval \<Rightarrow> jsval" where
  "blob_mimeType item = get_member (get_member item ''resource'') ''mimeType''"

fun recognised_image_type :: "jsval \<Rightarrow> bool" where
  "recognised_image_type (JStr s) = (trim (toLowerCase s) \<in> set IMAGE_MIME_TYPES)"
| "recognised_image_type v = False"

text \<open>The items on which the extraction throws: an item that is \<^verbatim>\<open>null\<close> or
  \<^verbatim>\<open>undefined\<close>, and a resource with a blob whose MIME type is a truthy value other
  than a string.\<close>

definition item_raises :: "jsval \<Rightarrow> bool" where
  "item_raises item =
     (nullish item
      \<or> (is_blob_item item \<and> truthy (blob_mimeType item) \<and> \<not> is_string (blob_mimeType item)))"

definition item_texts :: "jsval \<Rightarrow> jsval list" where
  "item_texts item = (if is_text_item item then [get_member item ''text''] else [])"

definition item_images :: "jsval \<Rightarrow> jsval list" where
  "item_images item =
     (if is_image_item item then [get_member item ''data'']
      else if is_blob_item item \<and> recognised_image_type (blob_mimeType item)
      then [get_member (get_member item ''resource'') ''blob'']
      else [])"

text \<open>An item with the type and the field of a text or an image, the field being the empty
  string.\<close>

definition empty_field_item :: "jsval \<Rightarrow> bool" where
  "empty_field_item item =
     ((get_member item ''type'' = JStr ''text'' \<and> get_member item ''text'' = JStr [])
      \<or> (get_member item ''type'' = JStr ''image'' \<and> get_member item ''data'' = JStr []))"

subsection \<open>Stages of the pipeline\<close>

text \<open>The pre-scan gate lets the message through to the scan: the hook is absent or
  returns true.\<close>

definition gate_open :: "CentureMCPClientTransportOptions \<Rightarrow> jsobject \<Rightarrow> jsval \<Rightarrow> bool" where
  "gate_open opts message extra =
     (case shouldScanMessage opts of None \<Rightarrow> True | Some hook \<Rightarrow> hook message extra = Inr True)"

text \<open>The message is scanned and \<open>scanResult\<close> is its combined result: the gate is open,
  the extraction yields at least one fragment and every scan call succeeds.\<close>

definition scanned_as ::
  "CentureMCPClientTransportOptions \<Rightarrow> jsobject \<Rightarrow> jsval \<Rightarrow> ScanResponse \<Rightarrow> bool" where
  "scanned_as opts message extra scanResult =
     (gate_open opts message extra
      \<and> (case extractContentForScanning message of
           Inl e \<Rightarrow> False
         | Inr (texts, images) \<Rightarrow>
             (texts \<noteq> [] \<or> images \<noteq> [])
             \<and> (case Promise_all (settleOrder opts texts images) (scanPromises opts texts images) of
                  Inl e \<Rightarrow> False
                | Inr scanResults \<Rightarrow> scanResult = combinedScanResult scanResults)))"

text \<open>The post-scan hook overrides: it is present and returns \<^verbatim>\<open>passthrough: true\<close>.\<close>

definition post_scan_passthrough ::
  "CentureMCPClientTransportOptions \<Rightarrow> jsobject \<Rightarrow> jsval \<Rightarrow> ScanResponse \<Rightarrow> bool" where
  "post_scan_passthrough opts message extra scanResult =
     (case onAfterScan opts of
        None \<Rightarrow> False
      | Some hook \<Rightarrow>
          (case hook message extra scanResult of Inl e \<Rightarrow> False | Inr r \<Rightarrow> passthrough r))"

text \<open>The post-scan hook does not override: it is absent, or returns \<^verbatim>\<open>passthrough: false\<close>.\<close>

definition post_scan_continues ::
  "CentureMCPClientTransportOptions \<Rightarrow> jsobject \<Rightarrow> jsval \<Rightarrow> ScanResponse \<Rightarrow> bool" where
  "post_scan_continues opts message extra scanResult =
     (case onAfterScan opts of
        None \<Rightarrow> True
      | Some hook \<Rightarrow>
          (case hook message extra scanResult of Inl e \<Rightarrow> False | Inr r \<Rightarrow> \<not> passthrough r))"

text \<open>The unsafe-message hook blocks without a replacement: it is absent, or returns
  \<^verbatim>\<open>passthrough: false\<close> and no \<^verbatim>\<open>replace\<close>.\<close>

definition blocks_without_replacement ::
  "CentureMCPClientTransportOptions \<Rightarrow> jsobject \<Rightarrow> jsval \<Rightarrow> ScanResponse \<Rightarrow> bool" where
  "blocks_without_replacement opts message extra scanResult =
     (case onUnsafeMessage opts of
        None \<Rightarrow> True
      | Some hook \<Rightarrow>
          (case hook message extra scanResult of
             Inl e \<Rightarrow> False
           | Inr r \<Rightarrow> \<not> passthrough r \<and> replace r = None))"

text \<open>The handler raises \<open>e\<close> again: it throws \<open>e\<close>, hands no message to the application, and
  calls the error callback once, with \<open>e\<close>, exactly when \<open>e\<close> is an instance of
  \<^verbatim>\<open>Error\<close>.\<close>

definition raised_again ::
  "CentureMCPClientTransportOptions \<Rightarrow> jsobject \<Rightarrow> jsval \<Rightarrow> thrown \<Rightarrow> bool" where
  "raised_again opts message extra e =
     (snd (onmessage opts message extra) = Some e
      \<and> forwarded (fst (onmessage opts message extra)) = []
      \<and> reported (fst (onmessage opts message extra)) = (if instanceof_Error e then [e] else []))"

section \<open>Concrete configurations and messages\<close>

definition verdict_unsafe :: ScanResponse where
  "verdict_unsafe =
     \<lparr> is_safe = False,
       categories = [\<lparr> code = DATA_EXFILTRATION, confidence = HIGH \<rparr>],
       request_id = ''req-1'', api_key_id = ''key-1'', request_units = 2,
       service_tier = DEDICATED \<rparr>"

definition verdict_safe :: ScanResponse where
  "verdict_safe =
     \<lparr> is_safe = True, categories = [],
       request_id = ''req-2'', api_key_id = ''key-2'', request_units = 3,
       service_tier = LOW \<rparr>"

text \<open>A client and no hooks: the text \<^verbatim>\<open>hello\<close> is safe and every other text unsafe; every
  image is safe, but the scans of the images \<^verbatim>\<open>broken\<close> and \<^verbatim>\<open>slow\<close> fail. The calls
  settle in the reverse of the order of dispatch.\<close>

definition example_client :: CentureMCPClientTransportOptions where
  "example_client =
     \<lparr> scanText = (\<lambda>t. if t = JStr ''hello'' then Inr verdict_safe else Inr verdict_unsafe),
       scanImage = (\<lambda>i. if i = JStr ''broken'' then Inl (ErrorInstance ''fetch failed'')
                         else if i = JStr ''slow'' then Inl (ErrorInstance ''timed out'')
                         else Inr verdict_safe),
       settleOrder = (\<lambda>texts images. rev [0..<length texts + length images]),
       shouldScanMessage = None,
       onAfterScan = None,
       onUnsafeMessage = None \<rparr>"

text \<open>The same client behind a pre-scan gate that throws a string.\<close>

definition throwing_gate :: CentureMCPClientTransportOptions where
  "throwing_gate =
     example_client\<lparr> shouldScanMessage := Some (\<lambda>message extra. Inl (NonError (JStr ''denied''))) \<rparr>"

text \<open>The same client behind a pre-scan gate that returns false.\<close>

definition closed_gate :: CentureMCPClientTransportOptions where
  "closed_gate = example_client\<lparr> shouldScanMessage := Some (\<lambda>message extra. Inr False) \<rparr>"

text \<open>The same client with a post-scan hook that lets every message pass, and with one
  that only observes.\<close>

definition audit_override :: CentureMCPClientTransportOptions where
  "audit_override =
     example_client\<lparr> onAfterScan := Some (\<lambda>message extra scanResult. Inr \<lparr> passthrough = True \<rparr>) \<rparr>"

definition audit_only :: CentureMCPClientTransportOptions where
  "audit_only =
     example_client\<lparr> onAfterScan := Some (\<lambda>message extra scanResult. Inr \<lparr> passthrough = False \<rparr>) \<rparr>"

text \<open>The same client with a post-scan hook that throws, and with an unsafe-message hook
  that throws.\<close>

definition failing_audit :: CentureMCPClientTransportOptions where
  "failing_audit =
     example_client\<lparr> onAfterScan :=
       Some (\<lambda>message extra scanResult. Inl (ErrorInstance ''audit log unavailable'')) \<rparr>"

definition failing_policy :: CentureMCPClientTransportOptions where
  "failing_policy =
     example_client\<lparr> onUnsafeMessage :=
       Some (\<lambda>message extra scanResult. Inl (ErrorInstance ''policy store unavailable'')) \<rparr>"

definition text_item :: "string \<Rightarrow> jsval" where
  "text_item s = JObj [(''type'', JStr ''text''), (''text'', JStr s)]"

definition image_item :: "string \<Rightarrow> jsval" where
  "image_item s = JObj [(''type'', JStr ''image''), (''data'', JStr s)]"

definition blob_item :: "jsval \<Rightarrow> string \<Rightarrow> jsval" where
  "blob_item mimeType blob =
     JObj [(''type'', JStr ''resource''),
           (''resource'', JObj [(''uri'', JStr ''file:///a''), (''mimeType'', mimeType),
                                (''blob'', JStr blob)])]"

definition plain_response :: jsobject where
  "plain_response =
     [(''jsonrpc'', JStr ''2.0''), (''id'', JNum 9), (''result'', JObj [(''content'', JStr ''hello'')])]"

definition listing_response :: jsobject where
  "listing_response =
     [(''jsonrpc'', JStr ''2.0''), (''id'', JNum 10), (''result'', JObj [(''tools'', JArr [])])]"

definition response_with :: "jsval list \<Rightarrow> jsobject" where
  "response_with items =
     [(''jsonrpc'', JStr ''2.0''), (''id'', JNum 7),
      (''result'', JObj [(''content'', JArr items)])]"

definition tool_call_request :: jsobject where
  "tool_call_request =
     [(''jsonrpc'', JStr ''2.0''), (''id'', JNum 7), (''method'', JStr ''tools/call''),
      (''params'', JObj [(''name'', JStr ''fetch'')])]"

definition sampling_request :: jsobject where
  "sampling_request =
     [(''jsonrpc'', JStr ''2.0''), (''id'', JNum 8), (''method'', JStr ''sampling/createMessage''),
      (''params'', JObj [(''maxTokens'', JNum 10)])]"

definition log_notification :: jsobject where
  "log_notification =
     [(''jsonrpc'', JStr ''2.0''), (''method'', JStr ''notifications/message''),
      (''params'', JObj [(''data'', JStr ''attack'')])]"

definition bare_notification :: jsobject where
  "bare_notification = [(''jsonrpc'', JStr ''2.0''), (''method'', JStr ''notifications/initialized'')]"

text \<open>A wrapped transport that accepts every call in every state; its state is the list of
  the messages sent.\<close>

definition lenient_transport :: "jsobject list Transport" where
  "lenient_transport =
     \<lparr> transport_start = (\<lambda>w. (None, w)),
       transport_send = (\<lambda>message options w. (None, w @ [message])),
       transport_close = (\<lambda>w. (None, w)),
       transport_sessionId = (\<lambda>w. JUndefined),
       transport_setProtocolVersion = (\<lambda>w. False) \<rparr>"

text \<open>A wrapped transport that keeps its own lifecycle state (0 unstarted, 1 started,
  2 closed) and throws on a call out of order.\<close>

definition strict_transport :: "nat Transport" where
  "strict_transport =
     \<lparr> transport_start =
         (\<lambda>w. if w = 0 then (None, 1) else (Some (ErrorInstance ''already started''), w)),
       transport_send =
         (\<lambda>message options w. if w = 1 then (None, w) else (Some (ErrorInstance ''not connected''), w)),
       transport_close =
         (\<lambda>w. if w = 1 then (None, 2) else (Some (ErrorInstance ''not connected''), w)),
       transport_sessionId = (\<lambda>w. if w = 1 then JStr ''session-1'' else JUndefined),
       transport_setProtocolVersion = (\<lambda>w. True) \<rparr>"

section \<open>Traces of the stages\<close>

lemma forwarded_append: "forwarded (xs @ ys) = forwarded xs @ forwarded ys"
  by (induction xs rule: forwarded.induct) simp_all

lemma reported_append: "reported (xs @ ys) = reported xs @ reported ys"
  by (induction xs rule: reported.induct) simp_all

lemma forwarded_map_calls [simp]:
  "forwarded (map ScanTextCalled texts) = []"
  "forwarded (map ScanImageCalled images) = []"
  by (induction texts, simp_all) (induction images, simp_all)

lemma reported_map_calls [simp]:
  "reported (map ScanTextCalled texts) = []"
  "reported (map ScanImageCalled images) = []"
  by (induction texts, simp_all) (induction images, simp_all)

lemma has_key_truthy: "truthy (get_field message k) \<Longrightarrow> has_key k message"
  by (auto simp: has_key_def get_field_def split: option.splits)

text \<open>What the unsafe branch hands to the application.\<close>

lemma handleUnsafe_trace:
  "reported (fst (handleUnsafe opts message extra r)) = []"
  "filter is_scan_call (fst (handleUnsafe opts message extra r)) = []"
  "length (forwarded (fst (handleUnsafe opts message extra r))) \<le> Suc 0"
  "snd (handleUnsafe opts message extra r) = Some e
     \<Longrightarrow> forwarded (fst (handleUnsafe opts message extra r)) = []"
  by (auto simp: handleUnsafe_def forwardIfAny_def Let_def split: option.splits sum.splits)

lemma handleVerdict_trace:
  "reported (fst (handleVerdict opts message extra r)) = []"
  "filter is_scan_call (fst (handleVerdict opts message extra r)) = []"
  "length (forwarded (fst (handleVerdict opts message extra r))) \<le> Suc 0"
  "snd (handleVerdict opts message extra r) = Some e
     \<Longrightarrow> forwarded (fst (handleVerdict opts message extra r)) = []"
  by (auto simp: handleVerdict_def handleUnsafe_trace)

lemma handleVerdict_safe:
  "is_safe r \<Longrightarrow> handleVerdict opts message extra r = ([OnMessage message extra], None)"
  by (simp add: handleVerdict_def)

lemma afterScan_trace:
  "reported (fst (afterScan opts message extra r)) = []"
  "filter is_scan_call (fst (afterScan opts message extra r)) = []"
  "length (forwarded (fst (afterScan opts message extra r))) \<le> Suc 0"
  "snd (afterScan opts message extra r) = Some e
     \<Longrightarrow> forwarded (fst (afterScan opts message extra r)) = []"
  by (auto simp: afterScan_def Let_def split_beta handleVerdict_trace
      split: option.splits sum.splits)

lemma scanMessage_trace:
  "reported (fst (scanMessage opts message extra)) = []"
  "length (forwarded (fst (scanMessage opts message extra))) \<le> Suc 0"
  "snd (scanMessage opts message extra) = Some e
     \<Longrightarrow> forwarded (fst (scanMessage opts message extra)) = []"
  by (auto simp: scanMessage_def Let_def split_beta afterScan_trace forwarded_append
        reported_append split: sum.splits)

lemma tryBlock_trace:
  "reported (fst (tryBlock opts message extra)) = []"
  "length (forwarded (fst (tryBlock opts message extra))) \<le> Suc 0"
  "snd (tryBlock opts message extra) = Some e
     \<Longrightarrow> forwarded (fst (tryBlock opts message extra)) = []"
  by (auto simp: tryBlock_def Let_def split_beta scanMessage_trace
      split: option.splits sum.splits if_splits)

lemma onmessage_returns:
  "snd (tryBlock opts message extra) = None
     \<Longrightarrow> onmessage opts message extra = tryBlock opts message extra"
  by (cases "tryBlock opts message extra") (simp add: onmessage_def)

lemma onmessage_throws:
  "snd (tryBlock opts message extra) = Some e
     \<Longrightarrow> onmessage opts message extra
         = (fst (tryBlock opts message extra) @ (if instanceof_Error e then [OnError e] else []),
            Some e)"
  by (cases "tryBlock opts message extra") (simp add: onmessage_def)

lemma onmessage_outcome: "snd (onmessage opts message extra) = snd (tryBlock opts message extra)"
  by (cases "tryBlock opts message extra") (auto simp: onmessage_def split: option.splits)

section \<open>Properties of the combined scan result\<close>

lemma foldl_request_units:
  "foldl (\<lambda>sum result. sum + request_units result) a rs = a + sum_list (map request_units rs)"
  by (induction rs arbitrary: a) simp_all

lemma set_rejections: "set (rejections ps) = {e. Inl e \<in> set ps}"
  by (induction ps rule: rejections.induct) auto

lemma no_rejections: "rejections ps = [] \<Longrightarrow> map Inr (fulfilments ps) = ps"
  by (induction ps rule: rejections.induct) simp_all

lemma set_settled_rejections: "set (settled_rejections order ps) \<subseteq> {e. Inl e \<in> set ps}"
proof -
  have "set (map (\<lambda>i. ps ! i) (filter (\<lambda>i. i < length ps) order)) \<subseteq> set ps"
    by auto
  then show ?thesis
    unfolding settled_rejections_def set_rejections by blast
qed

lemma Promise_all_results:
  "Promise_all order ps = Inr rs \<Longrightarrow> map Inr rs = ps"
  by (auto simp: Promise_all_def no_rejections split: list.splits)

lemma Promise_all_rejects:
  assumes "Promise_all order ps = Inl e"
  shows "Inl e \<in> set ps"
proof -
  from assms obtain es where "settled_rejections order ps @ rejections ps = e # es"
    by (auto simp: Promise_all_def split: list.splits)
  then have "e \<in> set (settled_rejections order ps @ rejections ps)"
    by (metis list.set_intros(1))
  with set_settled_rejections [of order ps] show ?thesis
    by (auto simp: set_rejections)
qed

lemma Promise_all_fails:
  assumes "Inl x \<in> set ps"
  shows "\<exists>e. Promise_all order ps = Inl e \<and> Inl e \<in> set ps"
proof -
  from assms have "rejections ps \<noteq> []"
    using set_rejections [of ps] by auto
  then obtain e es where "settled_rejections order ps @ rejections ps = e # es"
    by (cases "settled_rejections order ps @ rejections ps") auto
  then have "Promise_all order ps = Inl e"
    by (simp add: Promise_all_def)
  with Promise_all_rejects [OF this] show ?thesis
    by blast
qed

text \<open>
  C2. For a non-empty list of fragment verdicts, the combined result is safe exactly when
  every verdict is safe; its categories are the verdicts' category lists concatenated in
  the order of the list, duplicates kept; its request units are the sum of the verdicts'
  request units; its request id, API key id and service tier are those of the first
  verdict. The list the handler combines is in dispatch order: the verdicts of the text
  fragments in extraction order, then those of the image fragments in extraction order.
\<close>

theorem combined_verdict_fold:
  assumes "verdicts \<noteq> []"
  shows "is_safe (combinedScanResult verdicts) = (\<forall>v \<in> set verdicts. is_safe v)
       \<and> categories (combinedScanResult verdicts) = concat (map categories verdicts)
       \<and> request_units (combinedScanResult verdicts) = sum_list (map request_units verdicts)
       \<and> request_id (combinedScanResult verdicts) = request_id (hd verdicts)
       \<and> api_key_id (combinedScanResult verdicts) = api_key_id (hd verdicts)
       \<and> service_tier (combinedScanResult verdicts) = service_tier (hd verdicts)
       \<and> (\<forall>opts texts images.
            Promise_all (settleOrder opts texts images) (scanPromises opts texts images) = Inr verdicts \<longrightarrow>
            map Inr verdicts = map (scanText opts) texts @ map (scanImage opts) images)"
proof -
  from assms obtain v vs where vs: "verdicts = v # vs"
    by (cases verdicts) auto
  have safe: "is_safe (combinedScanResult verdicts) = (\<forall>v \<in> set verdicts. is_safe v)"
    by (simp add: combinedScanResult_def list_ex_iff)
  have cats: "categories (combinedScanResult verdicts) = concat (map categories verdicts)"
    by (simp add: combinedScanResult_def)
  have units: "request_units (combinedScanResult verdicts) = sum_list (map request_units verdicts)"
    by (simp add: combinedScanResult_def foldl_request_units)
  have first: "request_id (combinedScanResult verdicts) = request_id (hd verdicts)"
    "api_key_id (combinedScanResult verdicts) = api_key_id (hd verdicts)"
    "service_tier (combinedScanResult verdicts) = service_tier (hd verdicts)"
    by (simp_all add: combinedScanResult_def vs or_empty_def)
  have order: "\<forall>opts texts images.
      Promise_all (settleOrder opts texts images) (scanPromises opts texts images) = Inr verdicts \<longrightarrow>
      map Inr verdicts = map (scanText opts) texts @ map (scanImage opts) images"
    using Promise_all_results by (fastforce simp: scanPromises_def)
  from safe cats units first order show ?thesis by blast
qed

theorem combined_verdict_fold_witness:
  "[verdict_safe, verdict_unsafe, verdict_safe] \<noteq> []
   \<and> Promise_all (settleOrder example_client [JStr ''hello'', JStr ''attack''] [JStr ''aW1n''])
         (scanPromises example_client [JStr ''hello'', JStr ''attack''] [JStr ''aW1n''])
       = Inr [verdict_safe, verdict_unsafe, verdict_safe]
   \<and> \<not> is_safe (combinedScanResult [verdict_safe, verdict_unsafe, verdict_safe])
   \<and> categories (combinedScanResult [verdict_safe, verdict_unsafe, verdict_safe])
       = [\<lparr> code = DATA_EXFILTRATION, confidence = HIGH \<rparr>]
   \<and> request_units (combinedScanResult [verdict_safe, verdict_unsafe, verdict_safe]) = 8
   \<and> request_id (combinedScanResult [verdict_safe, verdict_unsafe, verdict_safe]) = ''req-2''
   \<and> api_key_id (combinedScanResult [verdict_safe, verdict_unsafe, verdict_safe]) = ''key-2''
   \<and> service_tier (combinedScanResult [verdict_safe, verdict_unsafe, verdict_safe]) = LOW
   \<and> map Inr [verdict_safe, verdict_unsafe, verdict_safe]
       = map (scanText example_client) [JStr ''hello'', JStr ''attack'']
         @ map (scanImage example_client) [JStr ''aW1n'']"
proof -
  have ne: "[verdict_safe, verdict_unsafe, verdict_safe] \<noteq> []"
    by simp
  have run: "Promise_all (settleOrder example_client [JStr ''hello'', JStr ''attack''] [JStr ''aW1n''])
         (scanPromises example_client [JStr ''hello'', JStr ''attack''] [JStr ''aW1n''])
       = Inr [verdict_safe, verdict_unsafe, verdict_safe]"
    by code_simp
  from combined_verdict_fold [OF ne] run show ?thesis
    by (simp add: verdict_safe_def verdict_unsafe_def)
qed

section \<open>One disposition for each message\<close>

text \<open>The four outcomes of a run that returns, read off the messages handed to the
  application: the original, a replacement the unsafe-message hook returned, an error
  response synthesised for the message, or nothing.\<close>

lemma handleUnsafe_outcomes:
  assumes "snd (handleUnsafe opts message extra r) = None"
  shows "forwarded (fst (handleUnsafe opts message extra r)) = [(message, extra)]
       \<or> (\<exists>hook res m. onUnsafeMessage opts = Some hook \<and> hook message extra r = Inr res
             \<and> replace res = Some m
             \<and> forwarded (fst (handleUnsafe opts message extra r)) = [(m, extra)])
       \<or> (\<exists>b. blockedMessage message r = Some b
             \<and> forwarded (fst (handleUnsafe opts message extra r)) = [(b, extra)])
       \<or> forwarded (fst (handleUnsafe opts message extra r)) = []"
  using assms
  by (auto simp: handleUnsafe_def forwardIfAny_def Let_def split: option.splits sum.splits)

lemma afterScan_outcomes:
  assumes "snd (afterScan opts message extra r) = None"
  shows "forwarded (fst (afterScan opts message extra r)) = [(message, extra)]
       \<or> (\<exists>hook res m. onUnsafeMessage opts = Some hook \<and> hook message extra r = Inr res
             \<and> replace res = Some m
             \<and> forwarded (fst (afterScan opts message extra r)) = [(m, extra)])
       \<or> (\<exists>b. blockedMessage message r = Some b
             \<and> forwarded (fst (afterScan opts message extra r)) = [(b, extra)])
       \<or> forwarded (fst (afterScan opts message extra r)) = []"
proof -
  have verdict: "snd (handleVerdict opts message extra r) = None \<Longrightarrow>
      forwarded (fst (handleVerdict opts message extra r)) = [(message, extra)]
       \<or> (\<exists>hook res m. onUnsafeMessage opts = Some hook \<and> hook message extra r = Inr res
             \<and> replace res = Some m
             \<and> forwarded (fst (handleVerdict opts message extra r)) = [(m, extra)])
       \<or> (\<exists>b. blockedMessage message r = Some b
             \<and> forwarded (fst (handleVerdict opts message extra r)) = [(b, extra)])
       \<or> forwarded (fst (handleVerdict opts message extra r)) = []"
    using handleUnsafe_outcomes [of opts message extra r]
    by (cases "is_safe r") (simp_all add: handleVerdict_def)
  show ?thesis
  proof (cases "onAfterScan opts")
    case None
    with assms verdict show ?thesis
      by (simp add: afterScan_def)
  next
    case (Some hook)
    show ?thesis
    proof (cases "hook message extra r")
      case (Inl e)
      with Some assms show ?thesis
        by (simp add: afterScan_def)
    next
      case (Inr res)
      show ?thesis
      proof (cases "passthrough res")
        case True
        with Some Inr show ?thesis
          by (simp add: afterScan_def)
      next
        case False
        with Some Inr assms have "snd (handleVerdict opts message extra r) = None"
          by (simp add: afterScan_def split_beta)
        from verdict [OF this] Some Inr False show ?thesis
          by (simp add: afterScan_def split_beta)
      qed
    qed
  qed
qed

lemma scanMessage_outcomes:
  assumes "snd (scanMessage opts message extra) = None"
  shows "forwarded (fst (scanMessage opts message extra)) = [(message, extra)]
       \<or> (\<exists>r hook res m. onUnsafeMessage opts = Some hook \<and> hook message extra r = Inr res
             \<and> replace res = Some m
             \<and> forwarded (fst (scanMessage opts message extra)) = [(m, extra)])
       \<or> (\<exists>r b. blockedMessage message r = Some b
             \<and> forwarded (fst (scanMessage opts message extra)) = [(b, extra)])
       \<or> forwarded (fst (scanMessage opts message extra)) = []"
proof (cases "extractContentForScanning message")
  case (Inl e)
  with assms show ?thesis
    by (simp add: scanMessage_def)
next
  case (Inr fragments)
  obtain texts images where fragments: "fragments = (texts, images)"
    by (cases fragments)
  show ?thesis
  proof (cases "texts = [] \<and> images = []")
    case True
    with Inr fragments show ?thesis
      by (simp add: scanMessage_def)
  next
    case False
    show ?thesis
    proof (cases "Promise_all (settleOrder opts texts images) (scanPromises opts texts images)")
      case (Inl e)
      with Inr fragments False assms show ?thesis
        by (auto simp: scanMessage_def Let_def)
    next
      case scanned: (Inr scanResults)
      let ?r = "combinedScanResult scanResults"
      from Inr fragments False scanned
      have run: "scanMessage opts message extra
          = (ExtractCalled message
               # (map ScanTextCalled texts @ map ScanImageCalled images)
               @ fst (afterScan opts message extra ?r),
             snd (afterScan opts message extra ?r))"
        by (auto simp: scanMessage_def Let_def split_beta)
      with assms have "snd (afterScan opts message extra ?r) = None"
        by simp
      from afterScan_outcomes [OF this] run show ?thesis
        by (simp add: forwarded_append) blast
    qed
  qed
qed

lemma tryBlock_outcomes:
  assumes "snd (tryBlock opts message extra) = None"
  shows "forwarded (fst (tryBlock opts message extra)) = [(message, extra)]
       \<or> (\<exists>r hook res m. onUnsafeMessage opts = Some hook \<and> hook message extra r = Inr res
             \<and> replace res = Some m
             \<and> forwarded (fst (tryBlock opts message extra)) = [(m, extra)])
       \<or> (\<exists>r b. blockedMessage message r = Some b
             \<and> forwarded (fst (tryBlock opts message extra)) = [(b, extra)])
       \<or> forwarded (fst (tryBlock opts message extra)) = []"
proof (cases "shouldScanMessage opts")
  case None
  with assms scanMessage_outcomes [of opts message extra] show ?thesis
    by (simp add: tryBlock_def)
next
  case (Some hook)
  show ?thesis
  proof (cases "hook message extra")
    case (Inl e)
    with Some assms show ?thesis
      by (simp add: tryBlock_def)
  next
    case (Inr shouldScan)
    show ?thesis
    proof (cases shouldScan)
      case False
      with Some Inr show ?thesis
        by (simp add: tryBlock_def)
    next
      case True
      with Some Inr assms have "snd (scanMessage opts message extra) = None"
        by (simp add: tryBlock_def split_beta)
      from scanMessage_outcomes [OF this] Some Inr True show ?thesis
        by (simp add: tryBlock_def split_beta)
    qed
  qed
qed

text \<open>
  C8. When the handler returns without raising, it hands at most one message to the
  application, and what it hands over is one of four things: the original message, a
  replacement returned by the unsafe-message hook, an error response synthesised for the
  message, or nothing. The error callback is not called.
\<close>

theorem one_disposition_per_message:
  assumes "snd (onmessage opts message extra) = None"
  shows "length (forwarded (fst (onmessage opts message extra))) \<le> 1
       \<and> (forwarded (fst (onmessage opts message extra)) = [(message, extra)]
          \<or> (\<exists>r hook res m. onUnsafeMessage opts = Some hook \<and> hook message extra r = Inr res
                \<and> replace res = Some m
                \<and> forwarded (fst (onmessage opts message extra)) = [(m, extra)])
          \<or> (\<exists>r b. blockedMessage message r = Some b
                \<and> forwarded (fst (onmessage opts message extra)) = [(b, extra)])
          \<or> forwarded (fst (onmessage opts message extra)) = [])
       \<and> reported (fst (onmessage opts message extra)) = []"
proof -
  from assms have returns: "snd (tryBlock opts message extra) = None"
    by (simp add: onmessage_outcome)
  then have same: "onmessage opts message extra = tryBlock opts message extra"
    by (rule onmessage_returns)
  from tryBlock_outcomes [OF returns] tryBlock_trace(1,2) [of opts message extra] same
  show ?thesis
    by simp
qed

theorem one_disposition_per_message_witness:
  "snd (onmessage example_client (response_with [text_item ''hello'']) JUndefined) = None
   \<and> length (forwarded (fst (onmessage example_client
        (response_with [text_item ''hello'']) JUndefined))) \<le> 1
   \<and> forwarded (fst (onmessage example_client (response_with [text_item ''hello'']) JUndefined))
       = [(response_with [text_item ''hello''], JUndefined)]
   \<and> reported (fst (onmessage example_client
        (response_with [text_item ''hello'']) JUndefined)) = []"
proof -
  have returns: "snd (onmessage example_client (response_with [text_item ''hello'']) JUndefined) = None"
    by code_simp
  have original: "forwarded (fst (onmessage example_client
        (response_with [text_item ''hello'']) JUndefined))
       = [(response_with [text_item ''hello''], JUndefined)]"
    by code_simp
  from one_disposition_per_message [OF returns] returns original show ?thesis
    by simp
qed

section \<open>The three stages of the policy\<close>

text \<open>A scanned message reaches the post-scan stage after a prefix of calls in which
  nothing is handed to the application and no hook of a later stage is called.\<close>

lemma scanned_run:
  assumes "scanned_as opts message extra r"
  shows "\<exists>prefix. forwarded prefix = [] \<and> filter is_unsafe_hook_call prefix = []
           \<and> tryBlock opts message extra
               = (prefix @ fst (afterScan opts message extra r),
                  snd (afterScan opts message extra r))"
proof -
  from assms have gate: "gate_open opts message extra"
    by (simp add: scanned_as_def)
  from assms obtain texts images where
    extracted: "extractContentForScanning message = Inr (texts, images)" and
    some: "texts \<noteq> [] \<or> images \<noteq> []" and
    all: "case Promise_all (settleOrder opts texts images) (scanPromises opts texts images) of
            Inl e \<Rightarrow> False
          | Inr scanResults \<Rightarrow> r = combinedScanResult scanResults"
    by (cases "extractContentForScanning message") (auto simp: scanned_as_def)
  then obtain scanResults where
    scanned: "Promise_all (settleOrder opts texts images) (scanPromises opts texts images) = Inr scanResults" and
    r: "r = combinedScanResult scanResults"
    by (cases "Promise_all (settleOrder opts texts images) (scanPromises opts texts images)") auto
  let ?calls = "map ScanTextCalled texts @ map ScanImageCalled images"
  from extracted some scanned r
  have scan: "scanMessage opts message extra
      = ((ExtractCalled message # ?calls) @ fst (afterScan opts message extra r),
         snd (afterScan opts message extra r))"
    by (auto simp: scanMessage_def Let_def split_beta)
  have quiet: "forwarded (ExtractCalled message # ?calls) = []"
    "filter is_unsafe_hook_call (ExtractCalled message # ?calls) = []"
    by (simp_all add: forwarded_append filter_map o_def)
  show ?thesis
  proof (cases "shouldScanMessage opts")
    case None
    with scan quiet show ?thesis
      unfolding tryBlock_def by (metis option.simps(4))
  next
    case (Some hook)
    with gate have "hook message extra = Inr True"
      by (simp add: gate_open_def)
    with Some scan
    have "tryBlock opts message extra
        = ((ShouldScanMessageCalled message extra # ExtractCalled message # ?calls)
             @ fst (afterScan opts message extra r),
           snd (afterScan opts message extra r))"
      by (simp add: tryBlock_def)
    moreover have "forwarded (ShouldScanMessageCalled message extra # ExtractCalled message # ?calls) = []"
      "filter is_unsafe_hook_call
         (ShouldScanMessageCalled message extra # ExtractCalled message # ?calls) = []"
      by (simp_all add: forwarded_append filter_map o_def)
    ultimately show ?thesis
      by blast
  qed
qed

lemma afterScan_passthrough:
  assumes "post_scan_passthrough opts message extra r"
  shows "afterScan opts message extra r
       = ([OnAfterScanCalled message extra r, OnMessage message extra], None)"
  using assms
  by (auto simp: post_scan_passthrough_def afterScan_def split: option.splits sum.splits)

lemma afterScan_safe:
  assumes "post_scan_continues opts message extra r" and "is_safe r"
  shows "forwarded (fst (afterScan opts message extra r)) = [(message, extra)]
       \<and> filter is_unsafe_hook_call (fst (afterScan opts message extra r)) = []
       \<and> snd (afterScan opts message extra r) = None"
  using assms
  by (auto simp: post_scan_continues_def afterScan_def handleVerdict_safe
      split: option.splits sum.splits)

text \<open>
  C4. For a message that is scanned, with combined result \<open>scanResult\<close>: if the post-scan
  hook is present and returns \<^verbatim>\<open>passthrough: true\<close>, the original message is handed to
  the application unchanged and the unsafe-message hook is not called, whether the
  combined result is safe or not; if the post-scan hook is absent or returns
  \<^verbatim>\<open>passthrough: false\<close>, and the combined result is safe, the original message is handed
  to the application unchanged and the unsafe-message hook is not called.
\<close>

theorem post_scan_override:
  assumes "scanned_as opts message extra scanResult"
  shows "(post_scan_passthrough opts message extra scanResult \<longrightarrow>
            forwarded (fst (onmessage opts message extra)) = [(message, extra)]
            \<and> filter is_unsafe_hook_call (fst (onmessage opts message extra)) = []
            \<and> snd (onmessage opts message extra) = None)
       \<and> (post_scan_continues opts message extra scanResult \<and> is_safe scanResult \<longrightarrow>
            forwarded (fst (onmessage opts message extra)) = [(message, extra)]
            \<and> filter is_unsafe_hook_call (fst (onmessage opts message extra)) = []
            \<and> snd (onmessage opts message extra) = None)"
proof -
  from scanned_run [OF assms] obtain prefix where
    prefix: "forwarded prefix = []" "filter is_unsafe_hook_call prefix = []" and
    run: "tryBlock opts message extra
            = (prefix @ fst (afterScan opts message extra scanResult),
               snd (afterScan opts message extra scanResult))"
    by blast
  have "forwarded (fst (onmessage opts message extra)) = [(message, extra)]
      \<and> filter is_unsafe_hook_call (fst (onmessage opts message extra)) = []
      \<and> snd (onmessage opts message extra) = None"
    if after: "forwarded (fst (afterScan opts message extra scanResult)) = [(message, extra)]
      \<and> filter is_unsafe_hook_call (fst (afterScan opts message extra scanResult)) = []
      \<and> snd (afterScan opts message extra scanResult) = None"
  proof -
    from run after have "snd (tryBlock opts message extra) = None"
      by simp
    then have "onmessage opts message extra = tryBlock opts message extra"
      by (rule onmessage_returns)
    with run after prefix show ?thesis
      by (simp add: forwarded_append)
  qed
  with afterScan_passthrough [of opts message extra scanResult]
    afterScan_safe [of opts message extra scanResult]
  show ?thesis
    by simp
qed

theorem post_scan_override_witness:
  "scanned_as audit_override (response_with [text_item ''attack'']) JUndefined verdict_unsafe
   \<and> post_scan_passthrough audit_override (response_with [text_item ''attack'']) JUndefined verdict_unsafe
   \<and> \<not> is_safe verdict_unsafe
   \<and> forwarded (fst (onmessage audit_override (response_with [text_item ''attack'']) JUndefined))
       = [(response_with [text_item ''attack''], JUndefined)]
   \<and> filter is_unsafe_hook_call
       (fst (onmessage audit_override (response_with [text_item ''attack'']) JUndefined)) = []
   \<and> scanned_as audit_only (response_with [text_item ''hello'']) JUndefined verdict_safe
   \<and> post_scan_continues audit_only (response_with [text_item ''hello'']) JUndefined verdict_safe
   \<and> is_safe verdict_safe
   \<and> forwarded (fst (onmessage audit_only (response_with [text_item ''hello'']) JUndefined))
       = [(response_with [text_item ''hello''], JUndefined)]
   \<and> filter is_unsafe_hook_call
       (fst (onmessage audit_only (response_with [text_item ''hello'']) JUndefined)) = []"
proof -
  have s1: "scanned_as audit_override (response_with [text_item ''attack'']) JUndefined verdict_unsafe"
    by code_simp
  have p1: "post_scan_passthrough audit_override (response_with [text_item ''attack''])
      JUndefined verdict_unsafe"
    by code_simp
  have s2: "scanned_as audit_only (response_with [text_item ''hello'']) JUndefined verdict_safe"
    by code_simp
  have p2: "post_scan_continues audit_only (response_with [text_item ''hello'']) JUndefined verdict_safe"
    by code_simp
  have u: "\<not> is_safe verdict_unsafe" "is_safe verdict_safe"
    by (simp_all add: verdict_unsafe_def verdict_safe_def)
  from post_scan_override [OF s1] post_scan_override [OF s2] s1 p1 s2 p2 u show ?thesis
    by simp
qed

text \<open>
  C5. If the pre-scan gate hook is present and returns false, the handler calls the hook
  and hands the original message to the application, and does nothing else: the extractor
  is not called and no scan call is made. If the hook is absent, every message goes on
  to the scan: the handler starts with the extraction and makes one scan call for each
  extracted fragment, and when there is a fragment the client's answers decide the rest.
  If a call of \<^verbatim>\<open>scanText\<close> on a text or of \<^verbatim>\<open>scanImage\<close> on an image fails, the
  handler raises the rejection \<^verbatim>\<open>Promise.all\<close> gives; otherwise it goes on to the
  post-scan stage with the combined result of the verdicts those calls returned, and ends
  as that stage ends.
\<close>

theorem pre_scan_gate:
  "(\<forall>hook. shouldScanMessage opts = Some hook \<longrightarrow> hook message extra = Inr False \<longrightarrow>
      onmessage opts message extra
        = ([ShouldScanMessageCalled message extra, OnMessage message extra], None)
      \<and> filter is_extract_call (fst (onmessage opts message extra)) = []
      \<and> filter is_scan_call (fst (onmessage opts message extra)) = []
      \<and> forwarded (fst (onmessage opts message extra)) = [(message, extra)])
   \<and> (shouldScanMessage opts = None \<longrightarrow>
        (\<exists>evs. fst (onmessage opts message extra) = ExtractCalled message # evs)
        \<and> (\<forall>texts images. extractContentForScanning message = Inr (texts, images) \<longrightarrow>
              filter is_scan_call (fst (onmessage opts message extra))
                = map ScanTextCalled texts @ map ScanImageCalled images
              \<and> (texts \<noteq> [] \<or> images \<noteq> [] \<longrightarrow>
                   (case Promise_all (settleOrder opts texts images)
                           (map (scanText opts) texts @ map (scanImage opts) images) of
                      Inl e \<Rightarrow>
                        onmessage opts message extra
                          = (ExtractCalled message
                               # map ScanTextCalled texts @ map ScanImageCalled images
                               @ (if instanceof_Error e then [OnError e] else []),
                             Some e)
                    | Inr verdicts \<Rightarrow>
                        fst (onmessage opts message extra)
                          = ExtractCalled message
                              # map ScanTextCalled texts @ map ScanImageCalled images
                              @ fst (afterScan opts message extra (combinedScanResult verdicts))
                              @ (case snd (afterScan opts message extra (combinedScanResult verdicts)) of
                                   None \<Rightarrow> []
                                 | Some e \<Rightarrow> if instanceof_Error e then [OnError e] else [])
                        \<and> snd (onmessage opts message extra)
                          = snd (afterScan opts message extra (combinedScanResult verdicts))))))"
proof -
  have closed: "onmessage opts message extra
        = ([ShouldScanMessageCalled message extra, OnMessage message extra], None)"
    if "shouldScanMessage opts = Some hook" "hook message extra = Inr False" for hook
    using that by (simp add: onmessage_def tryBlock_def)
  have absent_first: "\<exists>evs. fst (onmessage opts message extra) = ExtractCalled message # evs"
    if "shouldScanMessage opts = None"
    using that
    by (auto simp: onmessage_def tryBlock_def scanMessage_def Let_def split_beta
        split: sum.splits option.splits)
  have absent_calls: "filter is_scan_call (fst (onmessage opts message extra))
        = map ScanTextCalled texts @ map ScanImageCalled images"
    if "shouldScanMessage opts = None" "extractContentForScanning message = Inr (texts, images)"
    for texts images
    using that
    by (auto simp: onmessage_def tryBlock_def scanMessage_def Let_def split_beta filter_map o_def
        afterScan_trace split: sum.splits option.splits)
  have absent_scans: "case Promise_all (settleOrder opts texts images)
                           (map (scanText opts) texts @ map (scanImage opts) images) of
        Inl e \<Rightarrow>
          onmessage opts message extra
            = (ExtractCalled message
                 # map ScanTextCalled texts @ map ScanImageCalled images
                 @ (if instanceof_Error e then [OnError e] else []),
               Some e)
      | Inr verdicts \<Rightarrow>
          fst (onmessage opts message extra)
            = ExtractCalled message
                # map ScanTextCalled texts @ map ScanImageCalled images
                @ fst (afterScan opts message extra (combinedScanResult verdicts))
                @ (case snd (afterScan opts message extra (combinedScanResult verdicts)) of
                     None \<Rightarrow> []
                   | Some e \<Rightarrow> if instanceof_Error e then [OnError e] else [])
          \<and> snd (onmessage opts message extra)
            = snd (afterScan opts message extra (combinedScanResult verdicts))"
    if "shouldScanMessage opts = None" "extractContentForScanning message = Inr (texts, images)"
      "texts \<noteq> [] \<or> images \<noteq> []"
    for texts images
    using that
    by (auto simp: onmessage_def tryBlock_def scanMessage_def scanPromises_def Let_def split_beta
        split: sum.splits option.splits)
  have r1: "\<forall>hook. shouldScanMessage opts = Some hook \<longrightarrow> hook message extra = Inr False \<longrightarrow>
      onmessage opts message extra
        = ([ShouldScanMessageCalled message extra, OnMessage message extra], None)
      \<and> filter is_extract_call (fst (onmessage opts message extra)) = []
      \<and> filter is_scan_call (fst (onmessage opts message extra)) = []
      \<and> forwarded (fst (onmessage opts message extra)) = [(message, extra)]"
    using closed by simp
  have r2: "shouldScanMessage opts = None \<longrightarrow>
        (\<exists>evs. fst (onmessage opts message extra) = ExtractCalled message # evs)
        \<and> (\<forall>texts images. extractContentForScanning message = Inr (texts, images) \<longrightarrow>
              filter is_scan_call (fst (onmessage opts message extra))
                = map ScanTextCalled texts @ map ScanImageCalled images
              \<and> (texts \<noteq> [] \<or> images \<noteq> [] \<longrightarrow>
                   (case Promise_all (settleOrder opts texts images)
                           (map (scanText opts) texts @ map (scanImage opts) images) of
                      Inl e \<Rightarrow>
                        onmessage opts message extra
                          = (ExtractCalled message
                               # map ScanTextCalled texts @ map ScanImageCalled images
                               @ (if instanceof_Error e then [OnError e] else []),
                             Some e)
                    | Inr verdicts \<Rightarrow>
                        fst (onmessage opts message extra)
                          = ExtractCalled message
                              # map ScanTextCalled texts @ map ScanImageCalled images
                              @ fst (afterScan opts message extra (combinedScanResult verdicts))
                              @ (case snd (afterScan opts message extra (combinedScanResult verdicts)) of
                                   None \<Rightarrow> []
                                 | Some e \<Rightarrow> if instanceof_Error e then [OnError e] else [])
                        \<and> snd (onmessage opts message extra)
                          = snd (afterScan opts message extra (combinedScanResult verdicts)))))"
    using absent_first absent_calls absent_scans by blast
  from r1 r2 show ?thesis
    by (rule conjI)
qed

theorem pre_scan_gate_witness:
  "shouldScanMessage closed_gate = Some (\<lambda>message extra. Inr False)
   \<and> onmessage closed_gate (response_with [text_item ''attack'']) JUndefined
       = ([ShouldScanMessageCalled (response_with [text_item ''attack'']) JUndefined,
           OnMessage (response_with [text_item ''attack'']) JUndefined], None)
   \<and> shouldScanMessage example_client = None
   \<and> extractContentForScanning (response_with [text_item ''hello'', image_item ''aW1n''])
       = Inr ([JStr ''hello''], [JStr ''aW1n''])
   \<and> filter is_scan_call
       (fst (onmessage example_client (response_with [text_item ''hello'', image_item ''aW1n'']) JUndefined))
       = [ScanTextCalled (JStr ''hello''), ScanImageCalled (JStr ''aW1n'')]
   \<and> Promise_all (settleOrder example_client [JStr ''hello''] [JStr ''aW1n''])
        (map (scanText example_client) [JStr ''hello'']
           @ map (scanImage example_client) [JStr ''aW1n''])
       = Inr [verdict_safe, verdict_safe]
   \<and> snd (onmessage example_client (response_with [text_item ''hello'', image_item ''aW1n'']) JUndefined)
       = snd (afterScan example_client (response_with [text_item ''hello'', image_item ''aW1n''])
                JUndefined (combinedScanResult [verdict_safe, verdict_safe]))
   \<and> extractContentForScanning (response_with [text_item ''attack''])
       = Inr ([JStr ''attack''], [])
   \<and> Promise_all (settleOrder example_client [JStr ''attack''] [])
        (map (scanText example_client) [JStr ''attack''] @ map (scanImage example_client) [])
       = Inr [verdict_unsafe]
   \<and> fst (onmessage example_client (response_with [text_item ''attack'']) JUndefined)
       = ExtractCalled (response_with [text_item ''attack''])
           # map ScanTextCalled [JStr ''attack''] @ map ScanImageCalled []
           @ fst (afterScan example_client (response_with [text_item ''attack'']) JUndefined
                    (combinedScanResult [verdict_unsafe]))
           @ (case snd (afterScan example_client (response_with [text_item ''attack'']) JUndefined
                          (combinedScanResult [verdict_unsafe])) of
                None \<Rightarrow> []
              | Some e \<Rightarrow> if instanceof_Error e then [OnError e] else [])"
proof -
  let ?mixed = "response_with [text_item ''hello'', image_item ''aW1n'']"
  let ?attack = "response_with [text_item ''attack'']"
  have gate: "shouldScanMessage closed_gate = Some (\<lambda>message extra. Inr False)"
    by (simp add: closed_gate_def example_client_def)
  have absent: "shouldScanMessage example_client = None"
    by (simp add: example_client_def)
  have x1: "extractContentForScanning ?mixed = Inr ([JStr ''hello''], [JStr ''aW1n''])"
    by code_simp
  have p1: "Promise_all (settleOrder example_client [JStr ''hello''] [JStr ''aW1n''])
        (map (scanText example_client) [JStr ''hello'']
           @ map (scanImage example_client) [JStr ''aW1n''])
       = Inr [verdict_safe, verdict_safe]"
    by code_simp
  have x2: "extractContentForScanning ?attack = Inr ([JStr ''attack''], [])"
    by code_simp
  have p2: "Promise_all (settleOrder example_client [JStr ''attack''] [])
        (map (scanText example_client) [JStr ''attack''] @ map (scanImage example_client) [])
       = Inr [verdict_unsafe]"
    by code_simp
  from pre_scan_gate [of closed_gate ?attack JUndefined] gate
  have closed: "onmessage closed_gate ?attack JUndefined
       = ([ShouldScanMessageCalled ?attack JUndefined, OnMessage ?attack JUndefined], None)"
    by simp
  from pre_scan_gate [of example_client ?mixed JUndefined] absent x1
  have m: "filter is_scan_call (fst (onmessage example_client ?mixed JUndefined))
             = map ScanTextCalled [JStr ''hello''] @ map ScanImageCalled [JStr ''aW1n'']
       \<and> (case Promise_all (settleOrder example_client [JStr ''hello''] [JStr ''aW1n''])
                 (map (scanText example_client) [JStr ''hello'']
                    @ map (scanImage example_client) [JStr ''aW1n'']) of
            Inl e \<Rightarrow>
              onmessage example_client ?mixed JUndefined
                = (ExtractCalled ?mixed
                     # map ScanTextCalled [JStr ''hello''] @ map ScanImageCalled [JStr ''aW1n'']
                     @ (if instanceof_Error e then [OnError e] else []),
                   Some e)
          | Inr verdicts \<Rightarrow>
              fst (onmessage example_client ?mixed JUndefined)
                = ExtractCalled ?mixed
                    # map ScanTextCalled [JStr ''hello''] @ map ScanImageCalled [JStr ''aW1n'']
                    @ fst (afterScan example_client ?mixed JUndefined (combinedScanResult verdicts))
                    @ (case snd (afterScan example_client ?mixed JUndefined
                                   (combinedScanResult verdicts)) of
                         None \<Rightarrow> []
                       | Some e \<Rightarrow> if instanceof_Error e then [OnError e] else [])
              \<and> snd (onmessage example_client ?mixed JUndefined)
                = snd (afterScan example_client ?mixed JUndefined (combinedScanResult verdicts)))"
    by blast
  from pre_scan_gate [of example_client ?attack JUndefined] absent x2
  have a: "case Promise_all (settleOrder example_client [JStr ''attack''] [])
                 (map (scanText example_client) [JStr ''attack''] @ map (scanImage example_client) []) of
            Inl e \<Rightarrow>
              onmessage example_client ?attack JUndefined
                = (ExtractCalled ?attack
                     # map ScanTextCalled [JStr ''attack''] @ map ScanImageCalled []
                     @ (if instanceof_Error e then [OnError e] else []),
                   Some e)
          | Inr verdicts \<Rightarrow>
              fst (onmessage example_client ?attack JUndefined)
                = ExtractCalled ?attack
                    # map ScanTextCalled [JStr ''attack''] @ map ScanImageCalled []
                    @ fst (afterScan example_client ?attack JUndefined (combinedScanResult verdicts))
                    @ (case snd (afterScan example_client ?attack JUndefined
                                   (combinedScanResult verdicts)) of
                         None \<Rightarrow> []
                       | Some e \<Rightarrow> if instanceof_Error e then [OnError e] else [])
              \<and> snd (onmessage example_client ?attack JUndefined)
                = snd (afterScan example_client ?attack JUndefined (combinedScanResult verdicts))"
    by blast
  from m have m1: "filter is_scan_call (fst (onmessage example_client ?mixed JUndefined))
       = [ScanTextCalled (JStr ''hello''), ScanImageCalled (JStr ''aW1n'')]"
    by simp
  from m p1 have m2: "snd (onmessage example_client ?mixed JUndefined)
       = snd (afterScan example_client ?mixed JUndefined
                (combinedScanResult [verdict_safe, verdict_safe]))"
    by simp
  from a p2 have a1: "fst (onmessage example_client ?attack JUndefined)
       = ExtractCalled ?attack
           # map ScanTextCalled [JStr ''attack''] @ map ScanImageCalled []
           @ fst (afterScan example_client ?attack JUndefined (combinedScanResult [verdict_unsafe]))
           @ (case snd (afterScan example_client ?attack JUndefined
                          (combinedScanResult [verdict_unsafe])) of
                None \<Rightarrow> []
              | Some e \<Rightarrow> if instanceof_Error e then [OnError e] else [])"
    by simp
  from gate closed absent x1 m1 p1 m2 x2 p2 a1 show ?thesis
    by (intro conjI)
qed

text \<open>
  C10. The extraction tests the field of a content item for truthiness: a text item
  whose \<^verbatim>\<open>text\<close> is the empty string and an image item whose \<^verbatim>\<open>data\<close> is the empty string
  add no fragment. A message whose result has a content array of such items only yields
  no fragment at all, and the handler hands it to the application unchanged without a
  scan call, provided the pre-scan gate hook, if there is one, returns.
\<close>

theorem empty_fields_yield_no_fragment:
  assumes "get_member (get_field message ''result'') ''content'' = JArr items"
    and "\<forall>item \<in> set items. empty_field_item item"
    and "shouldScanMessage opts = None
         \<or> (\<exists>hook shouldScan. shouldScanMessage opts = Some hook
               \<and> hook message extra = Inr shouldScan)"
  shows "(\<forall>item rest texts images. empty_field_item item \<longrightarrow>
            extract_items (item # rest) texts images = extract_items rest texts images)
       \<and> extractContentForScanning message = Inr ([], [])
       \<and> forwarded (fst (onmessage opts message extra)) = [(message, extra)]
       \<and> filter is_scan_call (fst (onmessage opts message extra)) = []
       \<and> snd (onmessage opts message extra) = None"
proof -
  have skip: "extract_items (item # rest) texts images = extract_items rest texts images"
    if "empty_field_item item" for item rest texts images
  proof -
    from that have "\<not> nullish item"
      by (cases item) (auto simp: empty_field_item_def)
    with that show ?thesis
      by (auto simp: empty_field_item_def)
  qed
  have none: "extract_items its texts images = Inr (texts, images)"
    if "\<forall>item \<in> set its. empty_field_item item" for its texts images
    using that by (induction its) (simp_all add: skip del: extract_items.simps(2))
  from assms(1) obtain kvs where result: "get_field message ''result'' = JObj kvs"
    by (cases "get_field message ''result''") auto
  then have present: "has_key ''result'' message"
    by (simp add: has_key_truthy)
  from result present assms(1) none [OF assms(2)]
  have extracted: "extractContentForScanning message = Inr ([], [])"
    by (simp add: extractContentForScanning_def)
  then have scan: "scanMessage opts message extra
      = ([ExtractCalled message, OnMessage message extra], None)"
    by (simp add: scanMessage_def)
  from assms(3) scan
  have run: "forwarded (fst (tryBlock opts message extra)) = [(message, extra)]
       \<and> filter is_scan_call (fst (tryBlock opts message extra)) = []
       \<and> snd (tryBlock opts message extra) = None"
    by (auto simp: tryBlock_def)
  then have "onmessage opts message extra = tryBlock opts message extra"
    by (simp add: onmessage_returns)
  with run skip extracted show ?thesis
    by simp
qed

theorem empty_fields_yield_no_fragment_witness:
  "get_member (get_field (response_with [text_item '''', image_item '''']) ''result'') ''content''
     = JArr [text_item '''', image_item '''']
   \<and> empty_field_item (text_item '''')
   \<and> empty_field_item (image_item '''')
   \<and> shouldScanMessage example_client = None
   \<and> extract_items (text_item '''' # [text_item ''hello'']) [] [] = extract_items [text_item ''hello''] [] []
   \<and> extractContentForScanning (response_with [text_item '''', image_item '''']) = Inr ([], [])
   \<and> forwarded (fst (onmessage example_client (response_with [text_item '''', image_item '''']) JUndefined))
       = [(response_with [text_item '''', image_item ''''], JUndefined)]
   \<and> filter is_scan_call
       (fst (onmessage example_client (response_with [text_item '''', image_item '''']) JUndefined)) = []
   \<and> snd (onmessage example_client (response_with [text_item '''', image_item '''']) JUndefined) = None"
proof -
  have content: "get_member (get_field (response_with [text_item '''', image_item '''']) ''result'')
      ''content'' = JArr [text_item '''', image_item '''']"
    by code_simp
  have empties: "\<forall>item \<in> set [text_item '''', image_item '''']. empty_field_item item"
    by code_simp
  have gate: "shouldScanMessage example_client = None
         \<or> (\<exists>hook shouldScan. shouldScanMessage example_client = Some hook
               \<and> hook (response_with [text_item '''', image_item '''']) JUndefined = Inr shouldScan)"
    by (simp add: example_client_def)
  have each: "empty_field_item (text_item '''')" "empty_field_item (image_item '''')"
    by code_simp+
  from empty_fields_yield_no_fragment [OF content empties gate] content each
  show ?thesis
    by (simp add: example_client_def)
qed

section \<open>Errors raised while a message is processed\<close>

text \<open>Whatever leaves the \<^verbatim>\<open>try\<close> block is raised again.\<close>

lemma tryBlock_raised_again:
  assumes "snd (tryBlock opts message extra) = Some e"
  shows "raised_again opts message extra e"
  using assms
  by (simp add: raised_again_def onmessage_throws forwarded_append reported_append
      tryBlock_trace)

text \<open>Each cause makes the \<^verbatim>\<open>try\<close> block throw: the gate hook, the extraction, a scan
  call, the post-scan hook, the unsafe-message hook.\<close>

lemma gate_hook_throws:
  assumes "shouldScanMessage opts = Some hook" and "hook message extra = Inl e"
  shows "snd (tryBlock opts message extra) = Some e"
  using assms by (simp add: tryBlock_def)

lemma gate_open_outcome:
  assumes "gate_open opts message extra"
  shows "snd (tryBlock opts message extra) = snd (scanMessage opts message extra)"
  using assms
  by (auto simp: gate_open_def tryBlock_def split_beta split: option.splits)

lemma extraction_throws:
  assumes "extractContentForScanning message = Inl e"
  shows "snd (scanMessage opts message extra) = Some e"
  using assms by (simp add: scanMessage_def)

lemma scan_call_fails:
  assumes "extractContentForScanning message = Inr (texts, images)"
    and "Inl failure \<in> set (map (scanText opts) texts @ map (scanImage opts) images)"
  shows "\<exists>first.
           Promise_all (settleOrder opts texts images)
             (map (scanText opts) texts @ map (scanImage opts) images) = Inl first
         \<and> Inl first \<in> set (map (scanText opts) texts @ map (scanImage opts) images)
         \<and> snd (scanMessage opts message extra) = Some first"
proof -
  from assms(2) have some: "\<not> (texts = [] \<and> images = [])"
    by auto
  from Promise_all_fails [OF assms(2), of "settleOrder opts texts images"]
  obtain first where
    first: "Promise_all (settleOrder opts texts images)
             (map (scanText opts) texts @ map (scanImage opts) images) = Inl first"
      "Inl first \<in> set (map (scanText opts) texts @ map (scanImage opts) images)"
    by blast
  with assms(1) some have "snd (scanMessage opts message extra) = Some first"
    by (simp add: scanMessage_def scanPromises_def)
  with first show ?thesis
    by blast
qed

lemma scanned_outcome:
  assumes "scanned_as opts message extra r"
  shows "snd (tryBlock opts message extra) = snd (afterScan opts message extra r)"
  using scanned_run [OF assms] by auto

lemma post_scan_hook_throws:
  assumes "onAfterScan opts = Some hook" and "hook message extra r = Inl e"
  shows "snd (afterScan opts message extra r) = Some e"
  using assms by (simp add: afterScan_def)

lemma unsafe_hook_throws:
  assumes "post_scan_continues opts message extra r" and "\<not> is_safe r"
    and "onUnsafeMessage opts = Some hook" and "hook message extra r = Inl e"
  shows "snd (afterScan opts message extra r) = Some e"
proof -
  from assms(3,4) have "snd (handleUnsafe opts message extra r) = Some e"
    by (simp add: handleUnsafe_def)
  with assms(1,2) show ?thesis
    by (auto simp: post_scan_continues_def afterScan_def handleVerdict_def split_beta
        split: option.splits sum.splits)
qed

text \<open>
  C3 (as amended). Whenever the processing of an inbound message raises a value, the
  handler raises the same value again and hands no message to the application, neither
  the original nor a synthesised one; the error callback is called once, with that
  value, when the value is an instance of \<^verbatim>\<open>Error\<close>, and is not called when it is any
  other thrown value. This holds for each cause:
  \<^item> the pre-scan gate hook throws;
  \<^item> the extraction throws;
  \<^item> a scan call fails: whichever calls fail, the value raised is the rejection of one
    of them, the one that settles first;
  \<^item> the post-scan hook throws;
  \<^item> the unsafe-message hook throws.
\<close>

theorem raised_error_reported_and_rethrown:
  "(\<forall>hook. shouldScanMessage opts = Some hook \<and> hook message extra = Inl e \<longrightarrow>
      raised_again opts message extra e)
   \<and> (gate_open opts message extra \<and> extractContentForScanning message = Inl e \<longrightarrow>
        raised_again opts message extra e)
   \<and> (\<forall>texts images failure.
        gate_open opts message extra
        \<and> extractContentForScanning message = Inr (texts, images)
        \<and> Inl failure \<in> set (map (scanText opts) texts @ map (scanImage opts) images) \<longrightarrow>
        (\<exists>first.
           Promise_all (settleOrder opts texts images)
             (map (scanText opts) texts @ map (scanImage opts) images) = Inl first
         \<and> Inl first \<in> set (map (scanText opts) texts @ map (scanImage opts) images)
         \<and> raised_again opts message extra first))
   \<and> (\<forall>scanResult hook.
        scanned_as opts message extra scanResult
        \<and> onAfterScan opts = Some hook \<and> hook message extra scanResult = Inl e \<longrightarrow>
        raised_again opts message extra e)
   \<and> (\<forall>scanResult hook.
        scanned_as opts message extra scanResult
        \<and> post_scan_continues opts message extra scanResult \<and> \<not> is_safe scanResult
        \<and> onUnsafeMessage opts = Some hook \<and> hook message extra scanResult = Inl e \<longrightarrow>
        raised_again opts message extra e)"
proof -
  have gate: "raised_again opts message extra e"
    if "shouldScanMessage opts = Some hook" "hook message extra = Inl e" for hook
    using that by (intro tryBlock_raised_again gate_hook_throws)
  have extraction: "raised_again opts message extra e"
    if "gate_open opts message extra" "extractContentForScanning message = Inl e"
    using that by (simp add: tryBlock_raised_again gate_open_outcome extraction_throws)
  have scan: "\<exists>first.
           Promise_all (settleOrder opts texts images)
             (map (scanText opts) texts @ map (scanImage opts) images) = Inl first
         \<and> Inl first \<in> set (map (scanText opts) texts @ map (scanImage opts) images)
         \<and> raised_again opts message extra first"
    if "gate_open opts message extra" "extractContentForScanning message = Inr (texts, images)"
      "Inl failure \<in> set (map (scanText opts) texts @ map (scanImage opts) images)"
    for texts images failure
  proof -
    from scan_call_fails [OF that(2,3), of extra] obtain first where
      first: "Promise_all (settleOrder opts texts images)
             (map (scanText opts) texts @ map (scanImage opts) images) = Inl first"
        "Inl first \<in> set (map (scanText opts) texts @ map (scanImage opts) images)"
        "snd (scanMessage opts message extra) = Some first"
      by blast
    from first(3) that(1) have "raised_again opts message extra first"
      by (simp add: tryBlock_raised_again gate_open_outcome)
    with first(1,2) show ?thesis
      by blast
  qed
  have post: "raised_again opts message extra e"
    if "scanned_as opts message extra scanResult" "onAfterScan opts = Some hook"
      "hook message extra scanResult = Inl e" for scanResult hook
    using that by (simp add: tryBlock_raised_again scanned_outcome post_scan_hook_throws)
  have unsafe: "raised_again opts message extra e"
    if "scanned_as opts message extra scanResult"
      "post_scan_continues opts message extra scanResult" "\<not> is_safe scanResult"
      "onUnsafeMessage opts = Some hook" "hook message extra scanResult = Inl e"
    for scanResult hook
    using that by (simp add: tryBlock_raised_again scanned_outcome unsafe_hook_throws)
  have r1: "\<forall>hook. shouldScanMessage opts = Some hook \<and> hook message extra = Inl e \<longrightarrow>
      raised_again opts message extra e"
    using gate by blast
  have r2: "gate_open opts message extra \<and> extractContentForScanning message = Inl e \<longrightarrow>
      raised_again opts message extra e"
    using extraction by blast
  have r3: "\<forall>texts images failure.
        gate_open opts message extra
        \<and> extractContentForScanning message = Inr (texts, images)
        \<and> Inl failure \<in> set (map (scanText opts) texts @ map (scanImage opts) images) \<longrightarrow>
        (\<exists>first.
           Promise_all (settleOrder opts texts images)
             (map (scanText opts) texts @ map (scanImage opts) images) = Inl first
         \<and> Inl first \<in> set (map (scanText opts) texts @ map (scanImage opts) images)
         \<and> raised_again opts message extra first)"
    using scan by blast
  have r4: "\<forall>scanResult hook.
        scanned_as opts message extra scanResult
        \<and> onAfterScan opts = Some hook \<and> hook message extra scanResult = Inl e \<longrightarrow>
        raised_again opts message extra e"
    using post by blast
  have r5: "\<forall>scanResult hook.
        scanned_as opts message extra scanResult
        \<and> post_scan_continues opts message extra scanResult \<and> \<not> is_safe scanResult
        \<and> onUnsafeMessage opts = Some hook \<and> hook message extra scanResult = Inl e \<longrightarrow>
        raised_again opts message extra e"
    using unsafe by blast
  show ?thesis
    by (rule conjI [OF r1 conjI [OF r2 conjI [OF r3 conjI [OF r4 r5]]]])
qed

text \<open>One run for each cause. In the third, the scans of the first and of the last of
  three images fail and the last call settles first: its rejection is the one raised.\<close>

theorem raised_error_reported_and_rethrown_witness:
  "shouldScanMessage throwing_gate = Some (\<lambda>message extra. Inl (NonError (JStr ''denied'')))
   \<and> raised_again throwing_gate log_notification JUndefined (NonError (JStr ''denied''))
   \<and> reported (fst (onmessage throwing_gate log_notification JUndefined)) = []
   \<and> gate_open example_client (response_with [text_item ''hello'', JNull]) JUndefined
   \<and> extractContentForScanning (response_with [text_item ''hello'', JNull]) = Inl TypeError
   \<and> raised_again example_client (response_with [text_item ''hello'', JNull]) JUndefined TypeError
   \<and> extractContentForScanning
        (response_with [image_item ''broken'', image_item ''aW1n'', image_item ''slow''])
       = Inr ([], [JStr ''broken'', JStr ''aW1n'', JStr ''slow''])
   \<and> Inl (ErrorInstance ''fetch failed'')
        \<in> set (map (scanText example_client) []
                @ map (scanImage example_client) [JStr ''broken'', JStr ''aW1n'', JStr ''slow''])
   \<and> Promise_all (settleOrder example_client [] [JStr ''broken'', JStr ''aW1n'', JStr ''slow''])
        (map (scanText example_client) []
           @ map (scanImage example_client) [JStr ''broken'', JStr ''aW1n'', JStr ''slow''])
       = Inl (ErrorInstance ''timed out'')
   \<and> raised_again example_client
        (response_with [image_item ''broken'', image_item ''aW1n'', image_item ''slow''])
        JUndefined (ErrorInstance ''timed out'')
   \<and> reported (fst (onmessage example_client
        (response_with [image_item ''broken'', image_item ''aW1n'', image_item ''slow'']) JUndefined))
       = [ErrorInstance ''timed out'']
   \<and> scanned_as failing_audit (response_with [text_item ''hello'']) JUndefined verdict_safe
   \<and> raised_again failing_audit (response_with [text_item ''hello'']) JUndefined
        (ErrorInstance ''audit log unavailable'')
   \<and> scanned_as failing_policy (response_with [text_item ''attack'']) JUndefined verdict_unsafe
   \<and> post_scan_continues failing_policy (response_with [text_item ''attack'']) JUndefined
        verdict_unsafe
   \<and> \<not> is_safe verdict_unsafe
   \<and> raised_again failing_policy (response_with [text_item ''attack'']) JUndefined
        (ErrorInstance ''policy store unavailable'')"
proof -
  let ?broken = "response_with [image_item ''broken'', image_item ''aW1n'', image_item ''slow'']"
  let ?images = "[JStr ''broken'', JStr ''aW1n'', JStr ''slow'']"
  have g1: "shouldScanMessage throwing_gate = Some (\<lambda>message extra. Inl (NonError (JStr ''denied'')))"
    by (simp add: throwing_gate_def example_client_def)
  from raised_error_reported_and_rethrown
    [of throwing_gate log_notification JUndefined "NonError (JStr ''denied'')"] g1
  have a: "raised_again throwing_gate log_notification JUndefined (NonError (JStr ''denied''))"
    by simp
  then have a': "reported (fst (onmessage throwing_gate log_notification JUndefined)) = []"
    by (simp add: raised_again_def)
  have g2: "gate_open example_client (response_with [text_item ''hello'', JNull]) JUndefined"
    by code_simp
  have x2: "extractContentForScanning (response_with [text_item ''hello'', JNull]) = Inl TypeError"
    by code_simp
  from raised_error_reported_and_rethrown
    [of example_client "response_with [text_item ''hello'', JNull]" JUndefined TypeError] g2 x2
  have b: "raised_again example_client (response_with [text_item ''hello'', JNull]) JUndefined
      TypeError"
    by simp
  have g3: "gate_open example_client ?broken JUndefined"
    by code_simp
  have x3: "extractContentForScanning ?broken = Inr ([], ?images)"
    by code_simp
  have f3: "Inl (ErrorInstance ''fetch failed'')
      \<in> set (map (scanText example_client) [] @ map (scanImage example_client) ?images)"
    by code_simp
  have p3: "Promise_all (settleOrder example_client [] ?images)
        (map (scanText example_client) [] @ map (scanImage example_client) ?images)
       = Inl (ErrorInstance ''timed out'')"
    by code_simp
  from raised_error_reported_and_rethrown [of example_client ?broken JUndefined TypeError]
  have "\<forall>texts images failure.
        gate_open example_client ?broken JUndefined
        \<and> extractContentForScanning ?broken = Inr (texts, images)
        \<and> Inl failure \<in> set (map (scanText example_client) texts
                               @ map (scanImage example_client) images) \<longrightarrow>
        (\<exists>first.
           Promise_all (settleOrder example_client texts images)
             (map (scanText example_client) texts @ map (scanImage example_client) images)
             = Inl first
         \<and> Inl first \<in> set (map (scanText example_client) texts
                              @ map (scanImage example_client) images)
         \<and> raised_again example_client ?broken JUndefined first)"
    by (elim conjE)
  with g3 x3 f3 obtain first where
    "Promise_all (settleOrder example_client [] ?images)
        (map (scanText example_client) [] @ map (scanImage example_client) ?images) = Inl first"
    "raised_again example_client ?broken JUndefined first"
    by blast
  with p3 have c: "raised_again example_client ?broken JUndefined (ErrorInstance ''timed out'')"
    by simp
  then have c': "reported (fst (onmessage example_client ?broken JUndefined))
      = [ErrorInstance ''timed out'']"
    by (simp add: raised_again_def)
  have s4: "scanned_as failing_audit (response_with [text_item ''hello'']) JUndefined verdict_safe"
    by code_simp
  have h4: "onAfterScan failing_audit
      = Some (\<lambda>message extra scanResult. Inl (ErrorInstance ''audit log unavailable''))"
    by (simp add: failing_audit_def example_client_def)
  from raised_error_reported_and_rethrown
    [of failing_audit "response_with [text_item ''hello'']" JUndefined
      "ErrorInstance ''audit log unavailable''"] s4 h4
  have d: "raised_again failing_audit (response_with [text_item ''hello'']) JUndefined
      (ErrorInstance ''audit log unavailable'')"
    by blast
  have s5: "scanned_as failing_policy (response_with [text_item ''attack'']) JUndefined verdict_unsafe"
    by code_simp
  have c5: "post_scan_continues failing_policy (response_with [text_item ''attack'']) JUndefined
      verdict_unsafe"
    by code_simp
  have u5: "\<not> is_safe verdict_unsafe"
    by (simp add: verdict_unsafe_def)
  have h5: "onUnsafeMessage failing_policy
      = Some (\<lambda>message extra scanResult. Inl (ErrorInstance ''policy store unavailable''))"
    by (simp add: failing_policy_def example_client_def)
  from raised_error_reported_and_rethrown
    [of failing_policy "response_with [text_item ''attack'']" JUndefined
      "ErrorInstance ''policy store unavailable''"] s5 c5 u5 h5
  have e: "raised_again failing_policy (response_with [text_item ''attack'']) JUndefined
      (ErrorInstance ''policy store unavailable'')"
    by blast
  from g1 a a' g2 x2 b x3 f3 p3 c c' s4 d s5 c5 u5 e show ?thesis
    by (intro conjI)
qed

text \<open>A hook that throws a string: the handler raises it again, and the error callback
  is not called.\<close>

theorem thrown_string_not_reported:
  "snd (onmessage throwing_gate log_notification JUndefined) = Some (NonError (JStr ''denied''))
   \<and> reported (fst (onmessage throwing_gate log_notification JUndefined)) = []"
  by code_simp

section \<open>Blocked messages\<close>

text \<open>What answers a blocked message: an error response when the message has an \<^verbatim>\<open>id\<close>,
  whether it is a request or a response, and nothing when it has none.\<close>

lemma blockedMessage_None_iff:
  "blockedMessage message r = None \<longleftrightarrow> get_field message ''id'' = JUndefined"
  by (auto simp: blockedMessage_def has_key_def get_field_def split: option.splits)

lemma handleUnsafe_blocks:
  assumes "blocks_without_replacement opts message extra r"
  shows "forwarded (fst (handleUnsafe opts message extra r))
           = (case blockedMessage message r of None \<Rightarrow> [] | Some b \<Rightarrow> [(b, extra)])
       \<and> snd (handleUnsafe opts message extra r) = None"
  using assms
  by (auto simp: blocks_without_replacement_def handleUnsafe_def forwardIfAny_def
      split: option.splits sum.splits)

lemma blocked_without_replacement:
  assumes "scanned_as opts message extra r"
    and "post_scan_continues opts message extra r"
    and "\<not> is_safe r"
    and "blocks_without_replacement opts message extra r"
  shows "forwarded (fst (onmessage opts message extra))
           = (case blockedMessage message r of None \<Rightarrow> [] | Some b \<Rightarrow> [(b, extra)])
       \<and> snd (onmessage opts message extra) = None"
proof -
  from scanned_run [OF assms(1)] obtain prefix where
    prefix: "forwarded prefix = []" and
    run: "tryBlock opts message extra
            = (prefix @ fst (afterScan opts message extra r), snd (afterScan opts message extra r))"
    by blast
  from assms(2,3)
  have after: "forwarded (fst (afterScan opts message extra r))
        = forwarded (fst (handleUnsafe opts message extra r))"
    "snd (afterScan opts message extra r) = snd (handleUnsafe opts message extra r)"
    by (auto simp: post_scan_continues_def afterScan_def handleVerdict_def split_beta
        split: option.splits sum.splits)
  with handleUnsafe_blocks [OF assms(4)] run
  have returns: "snd (tryBlock opts message extra) = None"
    by simp
  then have "onmessage opts message extra = tryBlock opts message extra"
    by (rule onmessage_returns)
  with run prefix after handleUnsafe_blocks [OF assms(4)] show ?thesis
    by (simp add: forwarded_append)
qed

text \<open>
  C1, on an unsafe response. The message is a response (it has an \<^verbatim>\<open>id\<close> and a
  \<^verbatim>\<open>result\<close>, and no \<^verbatim>\<open>method\<close>), its text is found unsafe and no hook is configured.
  The handler does not drop it: it hands the application an error response with the
  response's \<^verbatim>\<open>id\<close>.
\<close>

theorem unsafe_response_answered_with_error:
  "has_key ''result'' (response_with [text_item ''attack''])
   \<and> \<not> has_key ''method'' (response_with [text_item ''attack''])
   \<and> onmessage example_client (response_with [text_item ''attack'']) JUndefined
       = ([ExtractCalled (response_with [text_item ''attack'']),
           ScanTextCalled (JStr ''attack''),
           OnMessage
             [(''jsonrpc'', JStr ''2.0''),
              (''id'', JNum 7),
              (''error'', JObj
                 [(''code'', JNum (- 32001)),
                  (''message'', JStr ''Message blocked by Centure security scan''),
                  (''data'', JObj
                     [(''categories'', JArr
                         [JObj [(''code'', JStr ''data_exfiltration''),
                                (''confidence'', JStr ''high'')]]),
                      (''reason'', JStr ''Unsafe content detected'')])])]
             JUndefined],
          None)"
  by code_simp

section \<open>Reading the fields of an object\<close>

lemma get_field_Nil [simp]: "get_field [] k = JUndefined"
  by (simp add: get_field_def)

lemma get_field_Cons [simp]:
  "get_field ((k', v) # kvs) k = (if k' = k then v else get_field kvs k)"
  by (simp add: get_field_def)

lemma has_key_Nil [simp]: "\<not> has_key k []"
  by (simp add: has_key_def)

lemma has_key_Cons [simp]: "has_key k ((k', v) # kvs) = (k' = k \<or> has_key k kvs)"
  by (auto simp: has_key_def)

section \<open>The synthesised error response\<close>

lemma JSON_stringify_object: "\<exists>s. JSON_stringify (JObj kvs) = JStr s"
  by (simp add: JSON_stringify_def)

lemma JSON_stringify_truthy: "truthy v \<Longrightarrow> \<exists>s. JSON_stringify v = JStr s"
  by (cases v) (simp_all add: JSON_stringify_def)

lemma method_of_message:
  "(if has_key ''method'' message then get_field message ''method'' else JUndefined)
     = get_field message ''method''"
  by (simp add: has_key_def get_field_def)

text \<open>
  C6 (as amended). A blocked message with an \<^verbatim>\<open>id\<close> is answered by a synthesised message
  with the same \<^verbatim>\<open>id\<close>. If its method is \<^verbatim>\<open>tools/call\<close>, that message is a normal
  response: it has a \<^verbatim>\<open>result\<close> and no \<^verbatim>\<open>error\<close>, the result's \<^verbatim>\<open>isError\<close> flag is
  true, and its content is one text item whose text is the JSON serialisation of an object
  with the reserved code, a human-readable message and, under \<^verbatim>\<open>data\<close>, the detected
  categories. For every other method the message is an error response: it has an
  \<^verbatim>\<open>error\<close> and no \<^verbatim>\<open>result\<close>, and the error carries the reserved code \<open>-32001\<close> (in the
  range from \<open>-32099\<close> to \<open>-32000\<close>), the fixed message
  \<^verbatim>\<open>Message blocked by Centure security scan\<close>, and a data object with the detected
  categories and the reason \<^verbatim>\<open>Unsafe content detected\<close>.
\<close>

theorem synthesised_error_response:
  assumes "get_field message ''id'' \<noteq> JUndefined"
  shows "\<exists>response.
           blockedMessage message scanResult = Some response
         \<and> get_field response ''jsonrpc'' = JStr ''2.0''
         \<and> get_field response ''id'' = get_field message ''id''
         \<and> (get_field message ''method'' = JStr ''tools/call'' \<longrightarrow>
              has_key ''result'' response \<and> \<not> has_key ''error'' response
              \<and> get_member (get_field response ''result'') ''isError'' = JBool True
              \<and> (\<exists>payload s.
                    get_member (get_field response ''result'') ''content''
                      = JArr [JObj [(''type'', JStr ''text''), (''text'', JStr s)]]
                  \<and> JSON_stringify payload = JStr s
                  \<and> get_member payload ''code'' = JNum CENTURE_SECURITY_VIOLATION_ERROR
                  \<and> get_member payload ''message'' = JStr ''Message blocked by Centure security scan''
                  \<and> get_member (get_member payload ''data'') ''categories''
                      = JArr (map category_object (categories scanResult))))
         \<and> (get_field message ''method'' \<noteq> JStr ''tools/call'' \<longrightarrow>
              has_key ''error'' response \<and> \<not> has_key ''result'' response
              \<and> get_member (get_field response ''error'') ''code''
                  = JNum CENTURE_SECURITY_VIOLATION_ERROR
              \<and> get_member (get_field response ''error'') ''message''
                  = JStr ''Message blocked by Centure security scan''
              \<and> get_member (get_member (get_field response ''error'') ''data'') ''categories''
                  = JArr (map category_object (categories scanResult))
              \<and> get_member (get_member (get_field response ''error'') ''data'') ''reason''
                  = JStr ''Unsafe content detected'')
         \<and> CENTURE_SECURITY_VIOLATION_ERROR = - 32001
         \<and> - 32099 \<le> CENTURE_SECURITY_VIOLATION_ERROR
         \<and> CENTURE_SECURITY_VIOLATION_ERROR \<le> - 32000"
proof -
  from assms have id: "has_key ''id'' message"
    by (auto simp: has_key_def get_field_def split: option.splits)
  let ?payload = "JObj
     [(''code'', JNum CENTURE_SECURITY_VIOLATION_ERROR),
      (''message'', JStr ''Message blocked by Centure security scan''),
      (''data'', JObj
         [(''categories'', JArr (map category_object (categories scanResult))),
          (''reason'', JStr ''Unsafe content detected'')])]"
  let ?response = "createErrorResponse (get_field message ''id'') (get_field message ''method'')
     scanResult"
  obtain s where s: "JSON_stringify ?payload = JStr s"
    using JSON_stringify_object by blast
  have blocked: "blockedMessage message scanResult = Some ?response"
    using assms id by (simp add: blockedMessage_def method_of_message)
  have envelope: "get_field ?response ''jsonrpc'' = JStr ''2.0''"
    "get_field ?response ''id'' = get_field message ''id''"
    by (simp_all add: createErrorResponse_def)
  have code: "CENTURE_SECURITY_VIOLATION_ERROR = - 32001"
    "- 32099 \<le> CENTURE_SECURITY_VIOLATION_ERROR"
    "CENTURE_SECURITY_VIOLATION_ERROR \<le> - 32000"
    by (simp_all add: CENTURE_SECURITY_VIOLATION_ERROR_def)
  have tool: "has_key ''result'' ?response \<and> \<not> has_key ''error'' ?response
      \<and> get_member (get_field ?response ''result'') ''isError'' = JBool True
      \<and> (\<exists>payload s.
            get_member (get_field ?response ''result'') ''content''
              = JArr [JObj [(''type'', JStr ''text''), (''text'', JStr s)]]
          \<and> JSON_stringify payload = JStr s
          \<and> get_member payload ''code'' = JNum CENTURE_SECURITY_VIOLATION_ERROR
          \<and> get_member payload ''message'' = JStr ''Message blocked by Centure security scan''
          \<and> get_member (get_member payload ''data'') ''categories''
              = JArr (map category_object (categories scanResult)))"
    if call: "get_field message ''method'' = JStr ''tools/call''"
  proof -
    have shape: "has_key ''result'' ?response" "\<not> has_key ''error'' ?response"
      "get_member (get_field ?response ''result'') ''isError'' = JBool True"
      "get_member (get_field ?response ''result'') ''content''
         = JArr [JObj [(''type'', JStr ''text''), (''text'', JStr s)]]"
      by (simp_all add: createErrorResponse_def call s)
    have payload: "get_member ?payload ''code'' = JNum CENTURE_SECURITY_VIOLATION_ERROR"
      "get_member ?payload ''message'' = JStr ''Message blocked by Centure security scan''"
      "get_member (get_member ?payload ''data'') ''categories''
         = JArr (map category_object (categories scanResult))"
      by simp_all
    from shape(4) s payload
    have "\<exists>payload s.
            get_member (get_field ?response ''result'') ''content''
              = JArr [JObj [(''type'', JStr ''text''), (''text'', JStr s)]]
          \<and> JSON_stringify payload = JStr s
          \<and> get_member payload ''code'' = JNum CENTURE_SECURITY_VIOLATION_ERROR
          \<and> get_member payload ''message'' = JStr ''Message blocked by Centure security scan''
          \<and> get_member (get_member payload ''data'') ''categories''
              = JArr (map category_object (categories scanResult))"
      by blast
    with shape(1-3) show ?thesis
      by blast
  qed
  have other: "has_key ''error'' ?response \<and> \<not> has_key ''result'' ?response
      \<and> get_member (get_field ?response ''error'') ''code''
          = JNum CENTURE_SECURITY_VIOLATION_ERROR
      \<and> get_member (get_field ?response ''error'') ''message''
          = JStr ''Message blocked by Centure security scan''
      \<and> get_member (get_member (get_field ?response ''error'') ''data'') ''categories''
          = JArr (map category_object (categories scanResult))
      \<and> get_member (get_member (get_field ?response ''error'') ''data'') ''reason''
          = JStr ''Unsafe content detected''"
    if "get_field message ''method'' \<noteq> JStr ''tools/call''"
    using that by (simp add: createErrorResponse_def)
  from blocked envelope code tool other show ?thesis
    by blast
qed

text \<open>A blocked \<^verbatim>\<open>tools/call\<close> request with \<^verbatim>\<open>id\<close> 7 and a blocked request of another
  method with \<^verbatim>\<open>id\<close> 8, the verdict naming \<^verbatim>\<open>data_exfiltration\<close> with high confidence.\<close>

theorem synthesised_error_response_witness:
  "get_field tool_call_request ''id'' \<noteq> JUndefined
   \<and> get_field tool_call_request ''method'' = JStr ''tools/call''
   \<and> blockedMessage tool_call_request verdict_unsafe
       = Some [(''jsonrpc'', JStr ''2.0''),
               (''id'', JNum 7),
               (''result'', JObj
                  [(''isError'', JBool True),
                   (''content'', JArr
                      [JObj [(''type'', JStr ''text''),
                             (''text'', JStr (''{\"code\":-32001,''
                                @ ''\"message\":\"Message blocked by Centure security scan\",''
                                @ ''\"data\":{\"categories\":[{\"code\":\"data_exfiltration\",''
                                @ ''\"confidence\":\"high\"}],\"reason\":\"Unsafe content detected\"}}''))]])])]
   \<and> get_field sampling_request ''id'' \<noteq> JUndefined
   \<and> get_field sampling_request ''method'' \<noteq> JStr ''tools/call''
   \<and> blockedMessage sampling_request verdict_unsafe
       = Some [(''jsonrpc'', JStr ''2.0''),
               (''id'', JNum 8),
               (''error'', JObj
                  [(''code'', JNum (- 32001)),
                   (''message'', JStr ''Message blocked by Centure security scan''),
                   (''data'', JObj
                      [(''categories'', JArr
                          [JObj [(''code'', JStr ''data_exfiltration''),
                                 (''confidence'', JStr ''high'')]]),
                       (''reason'', JStr ''Unsafe content detected'')])])]"
proof -
  have id7: "get_field tool_call_request ''id'' \<noteq> JUndefined"
    by code_simp
  have id8: "get_field sampling_request ''id'' \<noteq> JUndefined"
    by code_simp
  have tool: "get_field tool_call_request ''method'' = JStr ''tools/call''"
    by code_simp
  have other: "get_field sampling_request ''method'' \<noteq> JStr ''tools/call''"
    by code_simp
  have r7: "blockedMessage tool_call_request verdict_unsafe
       = Some [(''jsonrpc'', JStr ''2.0''),
               (''id'', JNum 7),
               (''result'', JObj
                  [(''isError'', JBool True),
                   (''content'', JArr
                      [JObj [(''type'', JStr ''text''),
                             (''text'', JStr (''{\"code\":-32001,''
                                @ ''\"message\":\"Message blocked by Centure security scan\",''
                                @ ''\"data\":{\"categories\":[{\"code\":\"data_exfiltration\",''
                                @ ''\"confidence\":\"high\"}],\"reason\":\"Unsafe content detected\"}}''))]])])]"
    by code_simp
  have r8: "blockedMessage sampling_request verdict_unsafe
       = Some [(''jsonrpc'', JStr ''2.0''),
               (''id'', JNum 8),
               (''error'', JObj
                  [(''code'', JNum (- 32001)),
                   (''message'', JStr ''Message blocked by Centure security scan''),
                   (''data'', JObj
                      [(''categories'', JArr
                          [JObj [(''code'', JStr ''data_exfiltration''),
                                 (''confidence'', JStr ''high'')]]),
                       (''reason'', JStr ''Unsafe content detected'')])])]"
    by code_simp
  from synthesised_error_response [OF id7, of verdict_unsafe]
    synthesised_error_response [OF id8, of verdict_unsafe]
    id7 id8 tool other r7 r8
  show ?thesis
    by simp
qed

text \<open>The message of the error response is not the text \<^verbatim>\<open>blocked by security scan\<close>.\<close>

theorem error_message_text_differs:
  "get_member (get_field (createErrorResponse (JNum 8) (JStr ''sampling/createMessage'') verdict_unsafe)
      ''error'') ''message''
     \<noteq> JStr ''blocked by security scan''"
  by code_simp

section \<open>Content extraction\<close>

lemma opt_member_eq: "opt_member v k = get_member v k"
  by (cases v) (simp_all add: opt_member_def)

lemma isImageMimeType_eq:
  "isImageMimeType v
     = (if truthy v \<and> \<not> is_string v then Inl TypeError else Inr (recognised_image_type v))"
  by (cases v) (auto simp: trim_def toLowerCase_def IMAGE_MIME_TYPES_def)

lemma item_kinds_exclusive:
  "is_text_item item \<Longrightarrow> \<not> is_image_item item \<and> \<not> is_blob_item item"
  "is_image_item item \<Longrightarrow> \<not> is_blob_item item"
  by (auto simp: is_text_item_def is_image_item_def is_blob_item_def)

lemma extract_items_step:
  "extract_items (item # rest) texts images
     = (if item_raises item then Inl TypeError
        else extract_items rest (texts @ item_texts item) (images @ item_images item))"
proof (cases "nullish item")
  case True
  then show ?thesis
    by (simp add: item_raises_def)
next
  case False
  consider (textual) "is_text_item item" | (image) "is_image_item item" | (blob) "is_blob_item item"
    | (other) "\<not> is_text_item item" "\<not> is_image_item item" "\<not> is_blob_item item"
    by blast
  then show ?thesis
  proof cases
    case textual
    with False item_kinds_exclusive(1) [OF textual] show ?thesis
      by (simp add: item_raises_def item_texts_def item_images_def) (simp add: is_text_item_def)
  next
    case image
    then have "\<not> is_text_item item"
      using item_kinds_exclusive(1) by blast
    with False image item_kinds_exclusive(2) [OF image] show ?thesis
      by (simp add: item_raises_def item_texts_def item_images_def)
        (simp add: is_text_item_def is_image_item_def)
  next
    case blob
    then have no: "\<not> is_text_item item" "\<not> is_image_item item"
      using item_kinds_exclusive by blast+
    from blob have type: "get_member item ''type'' = JStr ''resource''"
      and has: "truthy (get_member (get_member item ''resource'') ''blob'')"
      by (simp_all add: is_blob_item_def)
    from False no blob type has show ?thesis
      by (simp add: item_raises_def item_texts_def item_images_def opt_member_eq
          isImageMimeType_eq blob_mimeType_def)
  next
    case other
    with False show ?thesis
      by (simp add: item_raises_def item_texts_def item_images_def opt_member_eq)
        (auto simp: is_text_item_def is_image_item_def is_blob_item_def)
  qed
qed

lemma extract_items_eq:
  "extract_items items texts images
     = (if \<exists>item \<in> set items. item_raises item then Inl TypeError
        else Inr (texts @ concat (map item_texts items), images @ concat (map item_images items)))"
proof (induction items arbitrary: texts images)
  case Nil
  then show ?case by simp
next
  case (Cons item items)
  show ?case
    by (simp only: extract_items_step Cons.IH) simp
qed

text \<open>
  C7 (as amended). A message carries a result when its \<^verbatim>\<open>result\<close> is truthy, and
  parameters when its \<^verbatim>\<open>params\<close> is truthy.
  \<^item> If the result's content is an array: an item that is \<^verbatim>\<open>null\<close> or \<^verbatim>\<open>undefined\<close>, or a
    resource with a blob whose MIME type is a truthy value other than a string, makes
    the extraction throw a TypeError. Otherwise each text-typed item with a truthy
    \<^verbatim>\<open>text\<close> gives one text fragment, each image-typed item with a truthy \<^verbatim>\<open>data\<close> gives
    one image fragment, each resource-typed item with a truthy \<^verbatim>\<open>blob\<close> and a recognised
    image MIME type gives one image fragment, every other item gives none, and the
    fragments keep the order of the items.
  \<^item> Else, if the result's content is a non-empty string, that string is the one text
    fragment.
  \<^item> Else the serialised result is the one text fragment.
  \<^item> A message with parameters and no result gives one text fragment, the serialised
    parameters.
  \<^item> A message with neither gives no fragment.
\<close>

theorem extraction_rules:
  "(\<forall>items. get_member (get_field message ''result'') ''content'' = JArr items \<longrightarrow>
      extractContentForScanning message
        = (if \<exists>item \<in> set items. item_raises item then Inl TypeError
           else Inr (concat (map item_texts items), concat (map item_images items))))
   \<and> (\<forall>s. get_member (get_field message ''result'') ''content'' = JStr s \<and> s \<noteq> [] \<longrightarrow>
        extractContentForScanning message = Inr ([JStr s], []))
   \<and> (truthy (get_field message ''result'')
        \<and> \<not> isArray (get_member (get_field message ''result'') ''content'')
        \<and> \<not> (is_string (get_member (get_field message ''result'') ''content'')
              \<and> truthy (get_member (get_field message ''result'') ''content'')) \<longrightarrow>
        (\<exists>s. JSON_stringify (get_field message ''result'') = JStr s
            \<and> extractContentForScanning message = Inr ([JStr s], [])))
   \<and> (\<not> truthy (get_field message ''result'') \<and> truthy (get_field message ''params'') \<longrightarrow>
        (\<exists>s. JSON_stringify (get_field message ''params'') = JStr s
            \<and> extractContentForScanning message = Inr ([JStr s], [])))
   \<and> (\<not> truthy (get_field message ''result'') \<and> \<not> truthy (get_field message ''params'') \<longrightarrow>
        extractContentForScanning message = Inr ([], []))"
proof -
  let ?result = "get_field message ''result''"
  let ?content = "get_member ?result ''content''"
  let ?params = "get_field message ''params''"
  have object: "truthy ?result" if "?content \<noteq> JUndefined"
    using that by (cases ?result) simp_all
  have array: "extractContentForScanning message
        = (if \<exists>item \<in> set items. item_raises item then Inl TypeError
           else Inr (concat (map item_texts items), concat (map item_images items)))"
    if "?content = JArr items" for items
  proof -
    from that have "truthy ?result"
      by (simp add: object)
    with that show ?thesis
      by (simp add: extractContentForScanning_def has_key_truthy extract_items_eq)
  qed
  have plain: "extractContentForScanning message = Inr ([JStr s], [])"
    if "?content = JStr s" "s \<noteq> []" for s
  proof -
    from that have "truthy ?result"
      by (simp add: object)
    with that show ?thesis
      by (simp add: extractContentForScanning_def has_key_truthy)
  qed
  have whole: "\<exists>s. JSON_stringify ?result = JStr s
      \<and> extractContentForScanning message = Inr ([JStr s], [])"
    if "truthy ?result" "\<not> isArray ?content" "\<not> (is_string ?content \<and> truthy ?content)"
    using that JSON_stringify_truthy [of ?result]
    by (auto simp: extractContentForScanning_def has_key_truthy)
  have params: "\<exists>s. JSON_stringify ?params = JStr s
      \<and> extractContentForScanning message = Inr ([JStr s], [])"
    if "\<not> truthy ?result" "truthy ?params"
    using that JSON_stringify_truthy [of ?params]
    by (auto simp: extractContentForScanning_def has_key_truthy)
  have neither: "extractContentForScanning message = Inr ([], [])"
    if "\<not> truthy ?result" "\<not> truthy ?params"
    using that by (simp add: extractContentForScanning_def)
  from array have r1: "\<forall>items. ?content = JArr items \<longrightarrow>
      extractContentForScanning message
        = (if \<exists>item \<in> set items. item_raises item then Inl TypeError
           else Inr (concat (map item_texts items), concat (map item_images items)))"
    by simp
  from plain have r2: "\<forall>s. ?content = JStr s \<and> s \<noteq> [] \<longrightarrow>
      extractContentForScanning message = Inr ([JStr s], [])"
    by simp
  from whole have r3: "truthy ?result \<and> \<not> isArray ?content
      \<and> \<not> (is_string ?content \<and> truthy ?content) \<longrightarrow>
      (\<exists>s. JSON_stringify ?result = JStr s
          \<and> extractContentForScanning message = Inr ([JStr s], []))"
    by simp
  from params have r4: "\<not> truthy ?result \<and> truthy ?params \<longrightarrow>
      (\<exists>s. JSON_stringify ?params = JStr s
          \<and> extractContentForScanning message = Inr ([JStr s], []))"
    by simp
  have r5: "\<not> truthy ?result \<and> \<not> truthy ?params \<longrightarrow>
      extractContentForScanning message = Inr ([], [])"
    by (simp add: neither)
  show ?thesis
    by (rule conjI [OF r1 conjI [OF r2 conjI [OF r3 conjI [OF r4 r5]]]])
qed

theorem extraction_rules_witness:
  "get_member (get_field
       (response_with [text_item ''hello'', text_item '''', image_item ''aW1n'',
                       blob_item (JStr '' Image/PNG '') ''cG5n'', blob_item (JStr ''text/plain'') ''dHh0''])
       ''result'') ''content''
     = JArr [text_item ''hello'', text_item '''', image_item ''aW1n'',
             blob_item (JStr '' Image/PNG '') ''cG5n'', blob_item (JStr ''text/plain'') ''dHh0'']
   \<and> extractContentForScanning
       (response_with [text_item ''hello'', text_item '''', image_item ''aW1n'',
                       blob_item (JStr '' Image/PNG '') ''cG5n'', blob_item (JStr ''text/plain'') ''dHh0''])
     = Inr ([JStr ''hello''], [JStr ''aW1n'', JStr ''cG5n''])
   \<and> get_member (get_field (response_with [text_item ''hello'', JNull]) ''result'') ''content''
     = JArr [text_item ''hello'', JNull]
   \<and> extractContentForScanning (response_with [text_item ''hello'', JNull]) = Inl TypeError
   \<and> get_member (get_field plain_response ''result'') ''content'' = JStr ''hello''
   \<and> extractContentForScanning plain_response = Inr ([JStr ''hello''], [])
   \<and> truthy (get_field listing_response ''result'')
   \<and> extractContentForScanning listing_response = Inr ([JStr ''{\"tools\":[]}''], [])
   \<and> \<not> truthy (get_field tool_call_request ''result'')
   \<and> truthy (get_field tool_call_request ''params'')
   \<and> extractContentForScanning tool_call_request = Inr ([JStr ''{\"name\":\"fetch\"}''], [])
   \<and> \<not> truthy (get_field bare_notification ''result'')
   \<and> \<not> truthy (get_field bare_notification ''params'')
   \<and> extractContentForScanning bare_notification = Inr ([], [])"
proof -
  let ?mixed = "[text_item ''hello'', text_item '''', image_item ''aW1n'',
     blob_item (JStr '' Image/PNG '') ''cG5n'', blob_item (JStr ''text/plain'') ''dHh0'']"
  have c1: "get_member (get_field (response_with ?mixed) ''result'') ''content'' = JArr ?mixed"
    by code_simp
  have ok: "\<not> (\<exists>item \<in> set ?mixed. item_raises item)"
    by code_simp
  have fragments: "concat (map item_texts ?mixed) = [JStr ''hello'']"
    "concat (map item_images ?mixed) = [JStr ''aW1n'', JStr ''cG5n'']"
    by code_simp+
  have c2: "get_member (get_field (response_with [text_item ''hello'', JNull]) ''result'') ''content''
     = JArr [text_item ''hello'', JNull]"
    by code_simp
  have raises: "\<exists>item \<in> set [text_item ''hello'', JNull]. item_raises item"
    by code_simp
  have c3: "get_member (get_field plain_response ''result'') ''content'' = JStr ''hello''"
    by code_simp
  have c4: "truthy (get_field listing_response ''result'')"
    "\<not> isArray (get_member (get_field listing_response ''result'') ''content'')"
    "\<not> (is_string (get_member (get_field listing_response ''result'') ''content'')
          \<and> truthy (get_member (get_field listing_response ''result'') ''content''))"
    "JSON_stringify (get_field listing_response ''result'') = JStr ''{\"tools\":[]}''"
    by code_simp+
  have c5: "\<not> truthy (get_field tool_call_request ''result'')"
    "truthy (get_field tool_call_request ''params'')"
    "JSON_stringify (get_field tool_call_request ''params'') = JStr ''{\"name\":\"fetch\"}''"
    by code_simp+
  have c6: "\<not> truthy (get_field bare_notification ''result'')"
    "\<not> truthy (get_field bare_notification ''params'')"
    by code_simp+
  from extraction_rules [of "response_with ?mixed"] c1 ok fragments
  have e1: "extractContentForScanning (response_with ?mixed)
      = Inr ([JStr ''hello''], [JStr ''aW1n'', JStr ''cG5n''])"
    by simp
  from extraction_rules [of "response_with [text_item ''hello'', JNull]"] c2 raises
  have e2: "extractContentForScanning (response_with [text_item ''hello'', JNull]) = Inl TypeError"
    by simp
  from extraction_rules [of plain_response] c3
  have e3: "extractContentForScanning plain_response = Inr ([JStr ''hello''], [])"
    by simp
  from extraction_rules [of listing_response] c4
  have e4: "extractContentForScanning listing_response = Inr ([JStr ''{\"tools\":[]}''], [])"
    by simp
  from extraction_rules [of tool_call_request] c5
  have e5: "extractContentForScanning tool_call_request = Inr ([JStr ''{\"name\":\"fetch\"}''], [])"
    by simp
  from extraction_rules [of bare_notification] c6
  have e6: "extractContentForScanning bare_notification = Inr ([], [])"
    by simp
  from c1 c2 c3 c4(1) c5(1,2) c6 e1 e2 e3 e4 e5 e6 show ?thesis
    by simp
qed

text \<open>A text-typed item that has a \<^verbatim>\<open>text\<close> field, the empty string, gives no
  fragment.\<close>

theorem empty_text_field_gives_no_fragment:
  "text_item [] = JObj [(''type'', JStr ''text''), (''text'', JStr [])]
   \<and> has_key ''text'' [(''type'', JStr ''text''), (''text'', JStr [])]
   \<and> extractContentForScanning (response_with [text_item []]) = Inr ([], [])"
  by code_simp

section \<open>Lifecycle\<close>

lemma call_delegates:
  "fst (call T operation this) = fst (transport_call T operation (wrappedTransport this))
   \<and> wrappedTransport (snd (call T operation this))
       = snd (transport_call T operation (wrappedTransport this))"
  by (cases operation)
    (auto simp: start_def send_def close_def Let_def split_beta split: option.splits)

text \<open>
  C9 (as amended). The adapter keeps no lifecycle state and makes no lifecycle check of
  its own: \<^verbatim>\<open>start\<close>, \<^verbatim>\<open>send\<close> and \<^verbatim>\<open>close\<close> delegate to the wrapped transport. For every
  sequence of calls, in any order, each call on the adapter returns or raises exactly
  what the wrapped transport's operation returns or raises in the state the same
  sequence has brought it to; a call before \<^verbatim>\<open>start\<close>, after \<^verbatim>\<open>close\<close> or a second
  \<^verbatim>\<open>start\<close> is reported only if the wrapped transport reports it.
\<close>

theorem lifecycle_delegated:
  "fst (calls T operations this) = fst (transport_calls T operations (wrappedTransport this))
   \<and> wrappedTransport (snd (calls T operations this))
       = snd (transport_calls T operations (wrappedTransport this))"
proof (induction operations arbitrary: this)
  case Nil
  then show ?case by simp
next
  case (Cons operation operations)
  from call_delegates [of T operation this]
    Cons.IH [of "snd (call T operation this)"]
  show ?case
    by (simp add: split_beta)
qed

theorem lifecycle_delegated_witness:
  "fst (calls strict_transport
          [Send tool_call_request JUndefined, Start, Start, Send tool_call_request JUndefined,
           Close, Send tool_call_request JUndefined] (constructor 0))
     = [Some (ErrorInstance ''not connected''), None, Some (ErrorInstance ''already started''),
        None, None, Some (ErrorInstance ''not connected'')]
   \<and> fst (transport_calls strict_transport
          [Send tool_call_request JUndefined, Start, Start, Send tool_call_request JUndefined,
           Close, Send tool_call_request JUndefined] 0)
     = [Some (ErrorInstance ''not connected''), None, Some (ErrorInstance ''already started''),
        None, None, Some (ErrorInstance ''not connected'')]"
proof -
  have wrapped: "fst (transport_calls strict_transport
          [Send tool_call_request JUndefined, Start, Start, Send tool_call_request JUndefined,
           Close, Send tool_call_request JUndefined] 0)
     = [Some (ErrorInstance ''not connected''), None, Some (ErrorInstance ''already started''),
        None, None, Some (ErrorInstance ''not connected'')]"
    by code_simp
  from lifecycle_delegated [of strict_transport
      "[Send tool_call_request JUndefined, Start, Start, Send tool_call_request JUndefined,
        Close, Send tool_call_request JUndefined]" "constructor 0"] wrapped
  show ?thesis
    by (simp add: constructor_def)
qed

text \<open>On a wrapped transport that accepts every call, the adapter reports nothing: not a
  \<^verbatim>\<open>send\<close> or a \<^verbatim>\<open>close\<close> before \<^verbatim>\<open>start\<close>, not a second \<^verbatim>\<open>start\<close>, not a \<^verbatim>\<open>send\<close>
  after \<^verbatim>\<open>close\<close>.\<close>

theorem out_of_order_calls_not_reported:
  "fst (calls lenient_transport
          [Send tool_call_request JUndefined, Close, Start, Start, Close,
           Send tool_call_request JUndefined] (constructor []))
     = [None, None, None, None, None, None]"
  by code_simp

end
